theory Spec2Isabelle
  imports Complex_Main "HOL-Library.Log_Nat"
begin

section \<open>Python strings\<close>

text \<open>
  A Python \<open>str\<close> is a sequence of Unicode code points, and \<open>len\<close>, slicing and
  comparison work on code points. The model keeps that: a string is a list of code points
  (natural numbers). \<open>str\<close> turns an ASCII literal of the theory into such a list; a
  character outside ASCII is written by its code point.
\<close>

type_synonym pystr = "nat list"

definition str :: "string \<Rightarrow> pystr" where
  "str cs = map of_char cs"

text \<open>
  \<open>str.isspace\<close>, which decides what \<open>strip()\<close> and \<open>split()\<close> remove and what
  \<open>\s\<close> matches in a \<open>str\<close> pattern: the whitespace code points of CPython.
\<close>

definition isspace :: "nat \<Rightarrow> bool" where
  "isspace c \<longleftrightarrow>
     (9 \<le> c \<and> c \<le> 13) \<or> (28 \<le> c \<and> c \<le> 32) \<or> c = 133 \<or> c = 160 \<or> c = 5760 \<or>
     (8192 \<le> c \<and> c \<le> 8202) \<or> c = 8232 \<or> c = 8233 \<or> c = 8239 \<or> c = 8287 \<or> c = 12288"

definition lstrip :: "pystr \<Rightarrow> pystr" where
  "lstrip xs = dropWhile isspace xs"

definition rstrip :: "pystr \<Rightarrow> pystr" where
  "rstrip xs = rev (dropWhile isspace (rev xs))"

definition strip :: "pystr \<Rightarrow> pystr" where
  "strip xs = rstrip (lstrip xs)"

definition startswith :: "pystr \<Rightarrow> pystr \<Rightarrow> bool" where
  "startswith xs p \<longleftrightarrow> take (length p) xs = p"

definition endswith :: "pystr \<Rightarrow> pystr \<Rightarrow> bool" where
  "endswith xs p \<longleftrightarrow> length p \<le> length xs \<and> drop (length xs - length p) xs = p"

text \<open>\<open>sep.join(parts)\<close>.\<close>

fun join :: "pystr \<Rightarrow> pystr list \<Rightarrow> pystr" where
  "join sep [] = []"
| "join sep [p] = p"
| "join sep (p # q # ps) = p @ sep @ join sep (q # ps)"

text \<open>
  \<open>xs.split(sep)\<close> for a non-empty separator: the pieces between the non-overlapping
  occurrences of \<open>sep\<close>, found from the left. \<open>cur\<close> is the piece being read.
\<close>

function split_from :: "pystr \<Rightarrow> pystr \<Rightarrow> pystr \<Rightarrow> pystr list" where
  "split_from sep cur [] = [cur]"
| "split_from sep cur (c # cs) =
     (if sep \<noteq> [] \<and> startswith (c # cs) sep
      then cur # split_from sep [] (drop (length sep) (c # cs))
      else split_from sep (cur @ [c]) cs)"
  by pat_completeness auto
termination
  by (relation "measure (\<lambda>(sep, cur, xs). length xs)") auto

definition split :: "pystr \<Rightarrow> pystr \<Rightarrow> pystr list" where
  "split xs sep = split_from sep [] xs"

text \<open>\<open>sub in xs\<close> for strings.\<close>

fun contains :: "pystr \<Rightarrow> pystr \<Rightarrow> bool" where
  "contains [] sub \<longleftrightarrow> sub = []"
| "contains (c # cs) sub \<longleftrightarrow> startswith (c # cs) sub \<or> contains cs sub"

text \<open>\<open>xs.split()\<close>: the maximal runs of characters that are not whitespace.\<close>

fun words_from :: "pystr \<Rightarrow> pystr \<Rightarrow> pystr list" where
  "words_from cur [] = (if cur = [] then [] else [cur])"
| "words_from cur (c # cs) =
     (if isspace c then (if cur = [] then words_from [] cs else cur # words_from [] cs)
      else words_from (cur @ [c]) cs)"

definition split_ws :: "pystr \<Rightarrow> pystr list" where
  "split_ws xs = words_from [] xs"

text \<open>\<open>x or ""\<close> for an optional string.\<close>

definition or_empty :: "pystr option \<Rightarrow> pystr" where
  "or_empty x = (case x of None \<Rightarrow> [] | Some xs \<Rightarrow> xs)"

section \<open>Python floats\<close>

text \<open>
  A Python \<open>float\<close> is an IEEE 754 double. Every finite double is a real number, so the
  model keeps a float as the real it stands for and rounds where the arithmetic of the
  source rounds. \<open>round_double x\<close> is the double nearest to \<open>x\<close>, ties to the even
  significand: with \<open>2 ^ e \<le> \<bar>x\<bar> < 2 ^ (e + 1)\<close> the result is a multiple of
  \<open>2 ^ (e - 52)\<close>, and of \<open>2 ^ (- 1074)\<close> in the subnormal range. Results beyond the
  largest double do not occur for the clock readings the engine computes with.
\<close>

definition pow2 :: "int \<Rightarrow> real" where
  "pow2 k = (if 0 \<le> k then 2 ^ nat k else 1 / 2 ^ nat (- k))"

definition round_half_even :: "real \<Rightarrow> int" where
  "round_half_even m =
     (let f = \<lfloor>m\<rfloor>; d = m - of_int f
      in if d < 1 / 2 then f else if 1 / 2 < d then f + 1 else if even f then f else f + 1)"

definition round_double :: "real \<Rightarrow> real" where
  "round_double x =
     (if x = 0 then 0
      else
        let a = \<bar>x\<bar>;
            e = bitlen \<lfloor>a * 2 ^ 1074\<rfloor> - 1075;
            q = max (e - 52) (- 1074);
            m = a * pow2 (- q)
        in sgn x * of_int (round_half_even m) * pow2 q)"

text \<open>
  \<open>a + b\<close> and \<open>a - b\<close> of two doubles: the exact result, rounded. Adding or
  subtracting zero and subtracting a number from itself are exact.
\<close>

definition double_add :: "real \<Rightarrow> real \<Rightarrow> real" where
  "double_add a b = (if b = 0 then a else round_double (a + b))"

definition double_sub :: "real \<Rightarrow> real \<Rightarrow> real" where
  "double_sub a b = (if a = b then 0 else if b = 0 then a else round_double (a - b))"

section \<open>The library and the world outside the repository\<close>

text \<open>
  Some functions of the Python library look characters up in the Unicode database, parse
  numbers or compute with floats: \<open>str.upper\<close>, the class \<open>\d\<close> of the \<open>re\<close> module
  (the decimal digits of every script), \<open>float\<close> of a string (\<open>None\<close> where it raises
  \<open>ValueError\<close>), \<open>float\<close> of a JSON number (\<open>None\<close> where it raises
  \<open>OverflowError\<close>, for an integer beyond the range of a double), and the sum and the
  difference of two floats. The repository does not define them, so the model takes them
  as fields of an environment, together with the geocoding provider: what it answers to
  the \<open>n\<close>-th request of the process, how long that request takes, and the candidate
  list of the venue variant \<open>event_location_fallbacks\<close>, a pure function of the location
  and the country code. Every general theorem below holds for every environment.
  \<open>ascii_env\<close> is the environment of ASCII text and of double arithmetic, used where a
  theorem runs the code on a concrete input.
\<close>

datatype jval = JNull | JNum real | JStr pystr

text \<open>Python truthiness of a JSON scalar: \<open>None\<close>, \<open>0\<close> and \<open>""\<close> are falsy.\<close>

fun truthy :: "jval \<Rightarrow> bool" where
  "truthy JNull \<longleftrightarrow> False"
| "truthy (JNum r) \<longleftrightarrow> r \<noteq> 0"
| "truthy (JStr xs) \<longleftrightarrow> xs \<noteq> []"

text \<open>
  What one request to the provider gives: \<open>Fault\<close> is an exception of the transport or of
  decoding the response, \<open>NoMatch\<close> the empty result list, \<open>Match lat lon\<close> the \<open>lat\<close> and
  \<open>lon\<close> fields of the first result (\<open>JNull\<close> for a missing field, as \<open>dict.get\<close> gives
  \<open>None\<close>).
\<close>

datatype response = Fault | NoMatch | Match jval jval

record env =
  str_upper :: "pystr \<Rightarrow> pystr"
  re_digit :: "nat \<Rightarrow> bool"
  str_float :: "pystr \<Rightarrow> real option"
  num_float :: "real \<Rightarrow> real option"
  fl_add :: "real \<Rightarrow> real \<Rightarrow> real"
  fl_sub :: "real \<Rightarrow> real \<Rightarrow> real"
  reply :: "nat \<Rightarrow> pystr \<Rightarrow> pystr \<Rightarrow> response"
  latency :: "nat \<Rightarrow> real"
  event_location_fallbacks :: "pystr \<Rightarrow> pystr option \<Rightarrow> pystr list"

definition ascii_upper :: "pystr \<Rightarrow> pystr" where
  "ascii_upper xs = map (\<lambda>c. if 97 \<le> c \<and> c \<le> 122 then c - 32 else c) xs"

definition ascii_digit :: "nat \<Rightarrow> bool" where
  "ascii_digit c \<longleftrightarrow> 48 \<le> c \<and> c \<le> 57"

section \<open>Query normalizer\<close>

definition COUNTRY_NAMES :: "(pystr \<times> pystr) list" where
  "COUNTRY_NAMES =
    [(str ''HR'', str ''Croatia''),
     (str ''BA'', str ''Bosnia and Herzegovina''),
     (str ''ME'', str ''Montenegro''),
     (str ''IT'', str ''Italy''),
     (str ''LT'', str ''Lithuania''),
     (str ''KZ'', str ''Kazakhstan''),
     (str ''PL'', str ''Poland''),
     (str ''SE'', str ''Sweden''),
     (str ''MK'', str ''North Macedonia''),
     (str ''AE'', str ''United Arab Emirates''),
     (str ''SI'', str ''Slovenia''),
     (str ''RS'', str ''Serbia''),
     (str ''HU'', str ''Hungary''),
     (str ''AT'', str ''Austria''),
     (str ''DE'', str ''Germany''),
     (str ''SK'', str ''Slovakia''),
     (str ''CZ'', str ''Czech Republic'')]"

definition build_query :: "env \<Rightarrow> pystr option \<Rightarrow> pystr option \<Rightarrow> pystr option" where
  "build_query E address country_code =
     (let cc = str_upper E (or_empty country_code) in
      if cc = [] \<or> length cc \<noteq> 2 then None
      else
        let country_name = (case map_of COUNTRY_NAMES cc of Some n \<Rightarrow> n | None \<Rightarrow> cc);
            q = (if or_empty address \<noteq> [] then strip (or_empty address) else [])
        in if q = [] then None
           else Some (if \<not> endswith q country_name then q @ str '', '' @ country_name else q))"

section \<open>Generic fallback generator\<close>

text \<open>
  \<open>re.sub(r"\s*\d+[a-zA-Z]?\s*$", "", xs)\<close>. A match ends at the end of the string (the
  greedy \<open>\s*\<close> takes a final newline too), and the search takes the leftmost start, so
  there is at most one match and the result is the text before it. The classes of
  whitespace, digits and ASCII letters are disjoint, so a suffix matches exactly when
  reading it greedily ends at its end.
\<close>

definition ascii_letter :: "nat \<Rightarrow> bool" where
  "ascii_letter c \<longleftrightarrow> (65 \<le> c \<and> c \<le> 90) \<or> (97 \<le> c \<and> c \<le> 122)"

definition street_no_match :: "env \<Rightarrow> pystr \<Rightarrow> bool" where
  "street_no_match E xs =
     (let r1 = dropWhile isspace xs;
          r2 = dropWhile (re_digit E) r1;
          r3 = (case r2 of [] \<Rightarrow> [] | c # cs \<Rightarrow> if ascii_letter c then cs else r2)
      in r2 \<noteq> r1 \<and> dropWhile isspace r3 = [])"

fun sub_street_no :: "env \<Rightarrow> pystr \<Rightarrow> pystr" where
  "sub_street_no E [] = []"
| "sub_street_no E (c # cs) =
     (if street_no_match E (c # cs) then [] else c # sub_street_no E cs)"

text \<open>\<open>parts[-n:]\<close>.\<close>

definition last_n :: "nat \<Rightarrow> 'a list \<Rightarrow> 'a list" where
  "last_n n xs = drop (length xs - n) xs"

definition fallback_queries :: "env \<Rightarrow> pystr \<Rightarrow> pystr list" where
  "fallback_queries E cache_key =
     (if cache_key = [] \<or> \<not> contains cache_key (str '', '') then []
      else
        let parts = map strip (split cache_key (str '', '')) in
        if length parts < 2 then []
        else
          let country = last parts;
              f1 = (if length parts \<ge> 4
                    then [join (str '', '') [parts ! 0, parts ! 1, last parts]] else []);
              f2 = (if length parts \<ge> 3 then [join (str '', '') (last_n 3 parts)] else []);
              f3 = (if length parts \<ge> 2 then [join (str '', '') (last_n 2 parts)] else []);
              f4 = (if length parts \<ge> 3
                    then
                      let address_part = parts ! 0;
                          street_no_strip = strip (sub_street_no E address_part)
                      in if street_no_strip \<noteq> [] \<and> street_no_strip \<noteq> address_part
                         then [street_no_strip @ str '', '' @ parts ! 1 @ str '', '' @ country]
                         else []
                    else [])
          in filter (\<lambda>q. q \<noteq> [] \<and> q \<noteq> cache_key) (f1 @ f2 @ f3 @ f4))"

section \<open>Correction table\<close>

definition CAMPUS_SPLIT_CANONICAL :: pystr where
  "CAMPUS_SPLIT_CANONICAL = str ''Cvite Fiskovi'' @ [263] @ str ''a 3, Split, Croatia''"

definition CACHE_QUERY_CORRECTIONS :: "(pystr \<times> pystr) list" where
  "CACHE_QUERY_CORRECTIONS =
    [(str ''Velika dvorana, Croatia'',
      CAMPUS_SPLIT_CANONICAL),
     (str ''Velika dvorana - studentski dom KAMPUS, Croatia'',
      CAMPUS_SPLIT_CANONICAL),
     (str ''Velika dvorana - KAMPUS Studentski dom dr. Franje Tu'' @ [273] @ str ''mana 3, Croatia'',
      CAMPUS_SPLIT_CANONICAL),
     (str ''Studentski dom dr. Franje Tu'' @ [273] @ str ''mana 3, Croatia'',
      CAMPUS_SPLIT_CANONICAL),
     (str ''Studentski dom Kampus, Split, Croatia'',
      CAMPUS_SPLIT_CANONICAL),
     (str ''Multifunkcionalna dvorana Kampus (ispod tribine). Studentski dom dr. Franjo Tu'' @ [273] @ str ''man Cvite Fiskovi'' @ [263] @ str ''a 3, Croatia'',
      CAMPUS_SPLIT_CANONICAL),
     (str ''Multifunkcionalna dvorana Kampus (ispod tribine). Studentski dom dr. Franjo Tu'' @ [273] @ str ''man Cvite Fiskovi'' @ [263] @ str ''a 3, Split, Croatia'',
      CAMPUS_SPLIT_CANONICAL),
     (str ''Kampus . Studentski dom dr. Franjo Tu'' @ [273] @ str ''man Cvite Fiskovi'' @ [263] @ str ''a 3, Croatia'',
      CAMPUS_SPLIT_CANONICAL),
     (str ''Kampus . Studentski dom dr. Franjo Tu'' @ [273] @ str ''man Cvite Fiskovi'' @ [263] @ str ''a 3, Split, Croatia'',
      CAMPUS_SPLIT_CANONICAL),
     (str ''Multifunkcionalna dvorana Kampus (ispod tribine). Studentski dom Kampus dr. Franje Tu'' @ [273] @ str ''mana Cvite Fiskovi'' @ [263] @ str ''a 3, Croatia'',
      CAMPUS_SPLIT_CANONICAL),
     (str ''Multifunkcionalna dvorana Kampus (ispod tribine). Studentski dom Kampus dr. Franje Tu'' @ [273] @ str ''mana Cvite Fiskovi'' @ [263] @ str ''a 3, Split, Croatia'',
      CAMPUS_SPLIT_CANONICAL),
     (str ''Kampus . Studentski dom Kampus dr. Franje Tu'' @ [273] @ str ''mana Cvite Fiskovi'' @ [263] @ str ''a 3, Croatia'',
      CAMPUS_SPLIT_CANONICAL),
     (str ''Kampus . Studentski dom Kampus dr. Franje Tu'' @ [273] @ str ''mana Cvite Fiskovi'' @ [263] @ str ''a 3, Split, Croatia'',
      CAMPUS_SPLIT_CANONICAL),
     (str ''SPINUT FUTSAL TEREN, Split, Croatia'',
      str ''SPINUT FUTSAL TEREN, Croatia''),
     (str ''Spinut futsal teren, Split, Croatia'',
      str ''Spinut futsal teren, Croatia'')]"

text \<open>\<open>frozenset(CACHE_QUERY_CORRECTIONS)\<close>: the keys of the table.\<close>

definition KEYS_TO_PURGE_FROM_CACHE :: "pystr list" where
  "KEYS_TO_PURGE_FROM_CACHE = map fst CACHE_QUERY_CORRECTIONS"

text \<open>\<open>CACHE_QUERY_CORRECTIONS.get(query, query)\<close>.\<close>

definition correct_query :: "pystr \<Rightarrow> pystr" where
  "correct_query query =
     (case map_of CACHE_QUERY_CORRECTIONS query of Some q \<Rightarrow> q | None \<Rightarrow> query)"

section \<open>Cache store\<close>

text \<open>
  A cache entry is JSON \<open>null\<close> (\<open>Negative\<close>) or an object whose \<open>lat\<close> and \<open>lng\<close>
  fields are read with \<open>dict.get\<close> (\<open>Resolved lat lng\<close>, with \<open>JNull\<close> for a missing
  field). The cache is the dictionary that \<open>json.load\<close> returns. A file on disk holds such
  a dictionary, or something that \<open>json.load\<close> does not read: bytes that are not valid
  UTF-8, on which reading the file opened with \<open>encoding="utf-8"\<close> raises
  \<open>UnicodeDecodeError\<close> (\<open>NotUtf8\<close>); text that is not JSON, on which the parser raises
  \<open>JSONDecodeError\<close> (\<open>NotJson\<close>); JSON nested deeper than the recursion limit, on which
  it raises \<open>RecursionError\<close> (\<open>TooDeep\<close>). JSON of another shape than the cache format
  (a value that is not an object, an entry that is neither \<open>null\<close> nor an object) is not
  a value of the model.
\<close>

datatype entry = Negative | Resolved jval jval

type_synonym cache = "pystr \<rightharpoonup> entry"

datatype content = NotUtf8 | NotJson | TooDeep | Json cache

datatype error =
  JSONDecodeError | UnicodeDecodeError | RecursionError | TransportFault
| ValueError | TypeError | OverflowError

text \<open>
  The state the engine reads and writes: the cache file and the legacy cache file (\<open>None\<close>
  when the file does not exist), the clock that \<open>time.time()\<close> reads and \<open>time.sleep\<close>
  advances, the global \<open>_LAST_REQUEST_TIME\<close>, and the log of the requests sent to the
  provider, each with the time it was issued, its query and its country code.
\<close>

record world =
  cache_file :: "content option"
  legacy_file :: "content option"
  now :: real
  last_request_time :: real
  requests :: "(real \<times> pystr \<times> pystr) list"

definition save_cache :: "cache \<Rightarrow> world \<Rightarrow> world" where
  "save_cache c w = w\<lparr>cache_file := Some (Json c)\<rparr>"

text \<open>What \<open>json.load\<close> gives for a file that exists: the dictionary, or the exception.\<close>

fun json_load :: "content \<Rightarrow> error + cache" where
  "json_load NotUtf8 = Inl UnicodeDecodeError"
| "json_load NotJson = Inl JSONDecodeError"
| "json_load TooDeep = Inl RecursionError"
| "json_load (Json data) = Inr data"

text \<open>
  \<open>_migrate_legacy_cache\<close>: \<open>json.load\<close> of the legacy file is outside any \<open>try\<close>, so
  its exception propagates, before the cache file is opened for writing.
\<close>

definition migrate_legacy_cache :: "world \<Rightarrow> (error + unit) \<times> world" where
  "migrate_legacy_cache w =
     (case legacy_file w of
        None \<Rightarrow> (Inr (), w)
      | Some legacy \<Rightarrow>
          if cache_file w = None
          then (case json_load legacy of
                  Inl e \<Rightarrow> (Inl e, w)
                | Inr data \<Rightarrow> (Inr (), save_cache data w))
          else (Inr (), w))"

text \<open>The loop \<open>for key in KEYS_TO_PURGE_FROM_CACHE\<close> over the pair \<open>(data, purged)\<close>.\<close>

fun purge_keys :: "pystr list \<Rightarrow> cache \<times> bool \<Rightarrow> cache \<times> bool" where
  "purge_keys [] st = st"
| "purge_keys (k # ks) (data, purged) =
     (if data k \<noteq> None then purge_keys ks (data(k := None), True)
      else purge_keys ks (data, purged))"

definition load_cache :: "world \<Rightarrow> (error + cache) \<times> world" where
  "load_cache w =
     (case migrate_legacy_cache w of
        (Inl e, w1) \<Rightarrow> (Inl e, w1)
      | (Inr _, w1) \<Rightarrow>
          (case cache_file w1 of
             None \<Rightarrow> (Inr Map.empty, w1)
           | Some body \<Rightarrow>
               (case json_load body of
                  Inl JSONDecodeError \<Rightarrow> (Inr Map.empty, w1)
                | Inl e \<Rightarrow> (Inl e, w1)
                | Inr data0 \<Rightarrow>
                    (case purge_keys KEYS_TO_PURGE_FROM_CACHE (data0, False) of
                       (data, purged) \<Rightarrow>
                         if purged then (Inr data, save_cache data w1) else (Inr data, w1)))))"

text \<open>
  The three lines \<open>cache = _load_cache(); cache[key] = value; _save_cache(cache)\<close>, which
  the resolver repeats at each of its writes after a fetch.
\<close>

definition load_put_save :: "pystr \<Rightarrow> entry \<Rightarrow> world \<Rightarrow> (error + unit) \<times> world" where
  "load_put_save key e w =
     (case load_cache w of
        (Inl err, w1) \<Rightarrow> (Inl err, w1)
      | (Inr cache, w1) \<Rightarrow> (Inr (), save_cache (cache(key \<mapsto> e)) w1))"

section \<open>Rate-limited fetcher\<close>

text \<open>The float that the literal \<open>1.1\<close> denotes: the double nearest to \<open>11 / 10\<close>.\<close>

definition RATE_LIMIT_SEC :: real where
  "RATE_LIMIT_SEC = 2476979795053773 / 2251799813685248"

text \<open>
  The clock is the one of a test with a fake clock, as the specification has it for the
  rate limit: \<open>time.time()\<close> returns the float \<open>now\<close>, and \<open>time.sleep(d)\<close> adds
  \<open>d\<close> to it, in float arithmetic.
\<close>

definition sleep :: "env \<Rightarrow> real \<Rightarrow> world \<Rightarrow> world" where
  "sleep E d w = w\<lparr>now := fl_add E (now w) d\<rparr>"

text \<open>
  \<open>_fetch_nominatim\<close>. Every path through the body of \<open>for _ in range(3)\<close> returns or
  raises, so the body runs once. The request is logged with the time at which it is issued,
  which is the time just stored in \<open>_LAST_REQUEST_TIME\<close>; the clock then advances by the
  latency of the request. The result is the pair \<open>(lat, lon)\<close>, \<open>(None, None)\<close> being
  \<open>(JNull, JNull)\<close>.
\<close>

definition fetch_nominatim :: "env \<Rightarrow> pystr \<Rightarrow> pystr \<Rightarrow> world \<Rightarrow> (error + jval \<times> jval) \<times> world" where
  "fetch_nominatim E query country_code w =
     (let elapsed = fl_sub E (now w) (last_request_time w);
          w1 = (if elapsed < RATE_LIMIT_SEC
                then sleep E (fl_sub E RATE_LIMIT_SEC elapsed) w else w);
          w2 = w1\<lparr>last_request_time := now w1\<rparr>;
          n = length (requests w2);
          w3 = w2\<lparr>requests := requests w2 @ [(now w2, query, country_code)],
                  now := fl_add E (now w2) (latency E n)\<rparr>
      in case reply E n query country_code of
           Fault \<Rightarrow> (Inl TransportFault, w3)
         | NoMatch \<Rightarrow> (Inr (JNull, JNull), w3)
         | Match lat lon \<Rightarrow>
             (Inr (if truthy lat \<and> truthy lon then (lat, lon) else (JNull, JNull)), w3))"

section \<open>Resolver\<close>

text \<open>\<open>float(v)\<close>, which the resolver calls on truthy values only.\<close>

definition py_float :: "env \<Rightarrow> jval \<Rightarrow> error + real" where
  "py_float E v =
     (case v of
        JNull \<Rightarrow> Inl TypeError
      | JNum r \<Rightarrow> (case num_float E r of None \<Rightarrow> Inl OverflowError | Some x \<Rightarrow> Inr x)
      | JStr xs \<Rightarrow> (case str_float E xs of None \<Rightarrow> Inl ValueError | Some r \<Rightarrow> Inr r))"

text \<open>The tuple \<open>(float(lat), float(lng))\<close>, evaluated from the left.\<close>

definition float_pair :: "env \<Rightarrow> jval \<Rightarrow> jval \<Rightarrow> error + (real \<times> real) option" where
  "float_pair E lat lng =
     (case py_float E lat of
        Inl e \<Rightarrow> Inl e
      | Inr x \<Rightarrow> (case py_float E lng of Inl e \<Rightarrow> Inl e | Inr y \<Rightarrow> Inr (Some (x, y))))"

text \<open>
  The fallback loop of the branch for a cached \<open>null\<close>: it writes into the dictionary
  loaded at the start of the call and saves that.
\<close>

fun fallbacks_of_negative ::
  "env \<Rightarrow> pystr \<Rightarrow> pystr \<Rightarrow> cache \<Rightarrow> pystr list \<Rightarrow> world \<Rightarrow> (error + (real \<times> real) option) \<times> world" where
  "fallbacks_of_negative E query cc cache [] w = (Inr None, w)"
| "fallbacks_of_negative E query cc cache (fallback # rest) w =
     (case fetch_nominatim E fallback cc w of
        (Inl e, w1) \<Rightarrow> (Inl e, w1)
      | (Inr (lat, lng), w1) \<Rightarrow>
          if truthy lat \<and> truthy lng
          then (float_pair E lat lng, save_cache (cache(query \<mapsto> Resolved lat lng)) w1)
          else fallbacks_of_negative E query cc cache rest w1)"

text \<open>
  The fallback loop after a failed fetch of the query itself: it loads the cache anew
  before it writes. \<open>None\<close> is the loop running to its end, after which the caller
  writes the negative entry.
\<close>

fun fallbacks_of_absent ::
  "env \<Rightarrow> pystr \<Rightarrow> pystr \<Rightarrow> pystr list \<Rightarrow> world \<Rightarrow> (error + (real \<times> real) option) \<times> world" where
  "fallbacks_of_absent E query cc [] w = (Inr None, w)"
| "fallbacks_of_absent E query cc (fallback # rest) w =
     (case fetch_nominatim E fallback cc w of
        (Inl e, w1) \<Rightarrow> (Inl e, w1)
      | (Inr (lat, lng), w1) \<Rightarrow>
          if truthy lat \<and> truthy lng
          then (case load_put_save query (Resolved lat lng) w1 of
                  (Inl e, w2) \<Rightarrow> (Inl e, w2)
                | (Inr _, w2) \<Rightarrow> (float_pair E lat lng, w2))
          else fallbacks_of_absent E query cc rest w1)"

definition geocode_address ::
  "env \<Rightarrow> pystr option \<Rightarrow> pystr option \<Rightarrow> bool \<Rightarrow> bool \<Rightarrow> world \<Rightarrow> (error + (real \<times> real) option) \<times> world" where
  "geocode_address E address country_code skip_api fallbacks w =
     (case build_query E address country_code of
        None \<Rightarrow> (Inr None, w)
      | Some q0 \<Rightarrow>
          let query = correct_query q0;
              cc = str_upper E (or_empty country_code)
          in case load_cache w of
               (Inl e, w1) \<Rightarrow> (Inl e, w1)
             | (Inr cache, w1) \<Rightarrow>
                 (case cache query of
                    Some (Resolved lat lng) \<Rightarrow>
                      (if truthy lat \<and> truthy lng then float_pair E lat lng else Inr None, w1)
                  | Some Negative \<Rightarrow>
                      if skip_api then (Inr None, w1)
                      else if fallbacks
                      then fallbacks_of_negative E query cc cache (fallback_queries E query) w1
                      else (Inr None, w1)
                  | None \<Rightarrow>
                      if skip_api then (Inr None, w1)
                      else
                        (case fetch_nominatim E query cc w1 of
                           (Inl e, w2) \<Rightarrow> (Inl e, w2)
                         | (Inr (lat, lng), w2) \<Rightarrow>
                             if truthy lat \<and> truthy lng
                             then (case load_put_save query (Resolved lat lng) w2 of
                                     (Inl e, w3) \<Rightarrow> (Inl e, w3)
                                   | (Inr _, w3) \<Rightarrow> (float_pair E lat lng, w3))
                             else
                               (case (if fallbacks
                                      then fallbacks_of_absent E query cc (fallback_queries E query) w2
                                      else (Inr None, w2)) of
                                  (Inl e, w3) \<Rightarrow> (Inl e, w3)
                                | (Inr (Some c), w3) \<Rightarrow> (Inr (Some c), w3)
                                | (Inr None, w3) \<Rightarrow>
                                    (case load_put_save query Negative w3 of
                                       (Inl e, w4) \<Rightarrow> (Inl e, w4)
                                     | (Inr _, w4) \<Rightarrow> (Inr None, w4))))))"

section \<open>Venue variant of the resolver\<close>

text \<open>\<open>normalize_location\<close>: newlines become spaces, runs of whitespace one space.\<close>

definition normalize_location :: "pystr \<Rightarrow> pystr" where
  "normalize_location location =
     (if location = [] \<or> strip location = [] then []
      else join (str '' '') (split_ws (map (\<lambda>c. if c = 10 then 32 else c) location)))"

text \<open>
  The loop of \<open>geocode_event_location\<close> over the venue candidates. A coordinate found for
  a candidate is written under \<open>orig_key\<close>, the query built from the location, as the two
  floats that \<open>geocode_address\<close> returned.
\<close>

fun event_fallback_loop ::
  "env \<Rightarrow> pystr option \<Rightarrow> pystr option \<Rightarrow> pystr list \<Rightarrow> world \<Rightarrow> (error + (real \<times> real) option) \<times> world" where
  "event_fallback_loop E country_code orig_key [] w = (Inr None, w)"
| "event_fallback_loop E country_code orig_key (fallback # rest) w =
     (let fallback_key = build_query E (Some fallback) country_code in
      if fallback_key = None \<or> fallback_key = orig_key
      then event_fallback_loop E country_code orig_key rest w
      else
        (case geocode_address E (Some fallback) country_code False False w of
           (Inl e, w1) \<Rightarrow> (Inl e, w1)
         | (Inr None, w1) \<Rightarrow> event_fallback_loop E country_code orig_key rest w1
         | (Inr (Some (lat, lng)), w1) \<Rightarrow>
             (case orig_key of
                None \<Rightarrow> (Inr (Some (lat, lng)), w1)
              | Some key \<Rightarrow>
                  (case load_put_save key (Resolved (JNum lat) (JNum lng)) w1 of
                     (Inl e, w2) \<Rightarrow> (Inl e, w2)
                   | (Inr _, w2) \<Rightarrow> (Inr (Some (lat, lng)), w2)))))"

definition geocode_event_location ::
  "env \<Rightarrow> pystr option \<Rightarrow> pystr option \<Rightarrow> bool \<Rightarrow> world \<Rightarrow> (error + (real \<times> real) option) \<times> world" where
  "geocode_event_location E location country_code skip_api w =
     (let addr = (if or_empty location \<noteq> [] then normalize_location (or_empty location) else []) in
      if addr = [] then (Inr None, w)
      else
        (case geocode_address E (Some addr) country_code skip_api True w of
           (Inl e, w1) \<Rightarrow> (Inl e, w1)
         | (Inr (Some c), w1) \<Rightarrow> (Inr (Some c), w1)
         | (Inr None, w1) \<Rightarrow>
             if skip_api then (Inr None, w1)
             else event_fallback_loop E country_code (build_query E (Some addr) country_code)
                    (event_location_fallbacks E addr country_code) w1))"

section \<open>Sequences of operations\<close>

text \<open>
  A batch run calls the two resolvers one after the other; an exception that none of them
  catches ends the run. \<open>run\<close> gives the state in which the run ends.
\<close>

datatype operation =
  Resolve "pystr option" "pystr option" bool bool
| VenueResolve "pystr option" "pystr option" bool

fun perform :: "env \<Rightarrow> operation \<Rightarrow> world \<Rightarrow> (error + (real \<times> real) option) \<times> world" where
  "perform E (Resolve address country_code skip_api fallbacks) w =
     geocode_address E address country_code skip_api fallbacks w"
| "perform E (VenueResolve location country_code skip_api) w =
     geocode_event_location E location country_code skip_api w"

fun run :: "env \<Rightarrow> operation list \<Rightarrow> world \<Rightarrow> world" where
  "run E [] w = w"
| "run E (x # xs) w =
     (case perform E x w of (Inl e, w1) \<Rightarrow> w1 | (Inr r, w1) \<Rightarrow> run E xs w1)"

section \<open>Concrete environment and the words of the specification\<close>

text \<open>
  The environment of ASCII text: \<open>upper\<close> and \<open>\d\<close> as they are on ASCII characters,
  the arithmetic of doubles, \<open>float\<close> of a JSON number that is a double already, a
  provider that finds nothing and answers at once, no venue candidates. The theorems that
  run the code on a concrete input use it, with the provider replaced where needed.
\<close>

definition ascii_env :: env where
  "ascii_env =
     \<lparr>str_upper = ascii_upper, re_digit = ascii_digit, str_float = (\<lambda>xs. None),
      num_float = Some, fl_add = double_add, fl_sub = double_sub,
      reply = (\<lambda>n query cc. NoMatch), latency = (\<lambda>n. 0),
      event_location_fallbacks = (\<lambda>location cc. [])\<rparr>"

text \<open>A process that starts at clock 1000, with no files on disk and no request sent.\<close>

definition world0 :: world where
  "world0 =
     \<lparr>cache_file = None, legacy_file = None, now = 1000, last_request_time = 0, requests = []\<rparr>"

text \<open>
  Two providers for the scenarios: one finds the query \<open>Split, Croatia\<close> and nothing
  else, the other the query \<open>Teren, Croatia\<close> and nothing else. Both answer with the
  strings \<open>43.5\<close> and \<open>16.5\<close>, which \<open>float\<close> reads as those numbers.
\<close>

definition split_env :: env where
  "split_env = ascii_env
     \<lparr>str_float := (\<lambda>xs. if xs = str ''43.5'' then Some (87 / 2)
                          else if xs = str ''16.5'' then Some (33 / 2) else None),
      reply := (\<lambda>n query cc. if query = str ''Split, Croatia''
                               then Match (JStr (str ''43.5'')) (JStr (str ''16.5'')) else NoMatch)\<rparr>"

definition teren_env :: env where
  "teren_env = ascii_env
     \<lparr>str_float := (\<lambda>xs. if xs = str ''43.5'' then Some (87 / 2)
                          else if xs = str ''16.5'' then Some (33 / 2) else None),
      reply := (\<lambda>n query cc. if query = str ''Teren, Croatia''
                               then Match (JStr (str ''43.5'')) (JStr (str ''16.5'')) else NoMatch)\<rparr>"

text \<open>The provider that finds \<open>Split, Croatia\<close>, with that query as the venue candidate.\<close>

definition venue_env :: env where
  "venue_env = split_env\<lparr>event_location_fallbacks := (\<lambda>location cc. [str ''Split, Croatia''])\<rparr>"

text \<open>A country code of exactly two letters, as the specification words it.\<close>

definition spec_two_letters :: "pystr option \<Rightarrow> bool" where
  "spec_two_letters country_code \<longleftrightarrow>
     (case country_code of None \<Rightarrow> False | Some cc \<Rightarrow> length cc = 2 \<and> list_all ascii_letter cc)"

text \<open>
  The only length threshold of the source is the literal in \<open>add\<close>, the filter of the venue
  variant: \<open>len(q) < 5\<close> rejects a candidate.
\<close>

definition MIN_CANDIDATE_LENGTH :: nat where
  "MIN_CANDIDATE_LENGTH = 5"


text \<open>A single token: a non-empty string without whitespace.\<close>

definition single_token :: "pystr \<Rightarrow> bool" where
  "single_token q \<longleftrightarrow> q \<noteq> [] \<and> \<not> list_ex isspace q"

section \<open>Notions used in the statements\<close>

text \<open>
  The dictionary that the cache file holds: empty when the file is missing or is not JSON.
\<close>

definition stored :: "world \<Rightarrow> cache" where
  "stored w = (case cache_file w of Some (Json d) \<Rightarrow> d | _ \<Rightarrow> Map.empty)"

text \<open>A dictionary without the keys of the correction table.\<close>

definition purged :: "cache \<Rightarrow> cache" where
  "purged d = (\<lambda>k. if k \<in> set KEYS_TO_PURGE_FROM_CACHE then None else d k)"




text \<open>
  A resolution with no cache hit: the address and the country code give a query, and the
  cache as \<open>_load_cache\<close> returns it has no entry for it.
\<close>

definition uncached :: "env \<Rightarrow> pystr option \<Rightarrow> pystr option \<Rightarrow> world \<Rightarrow> bool" where
  "uncached E address country_code w =
     (case build_query E address country_code of
        None \<Rightarrow> False
      | Some q0 \<Rightarrow>
          (case load_cache w of
             (Inl e, w1) \<Rightarrow> False
           | (Inr cache, w1) \<Rightarrow> cache (correct_query q0) = None))"

text \<open>
  The files are as a load leaves them: loading again returns the same dictionary and
  writes nothing.
\<close>

definition settled :: "cache \<Rightarrow> world \<Rightarrow> bool" where
  "settled c w \<longleftrightarrow> load_cache w = (Inr c, w)"

text \<open>
  The entries of the cache file, as the resolver reads them: a solid entry has a truthy
  \<open>lat\<close> and \<open>lng\<close>, which is what the resolver returns a coordinate for; an entry may
  change from \<open>e\<close> to \<open>e'\<close> by staying as it is, by being created, or by becoming a
  Resolved one when it was not solid.
\<close>

definition solid :: "entry option \<Rightarrow> bool" where
  "solid e = (case e of Some (Resolved lat lng) \<Rightarrow> truthy lat \<and> truthy lng | _ \<Rightarrow> False)"

definition is_resolved :: "entry option \<Rightarrow> bool" where
  "is_resolved e = (case e of Some (Resolved lat lng) \<Rightarrow> True | _ \<Rightarrow> False)"

definition evolved :: "entry option \<Rightarrow> entry option \<Rightarrow> bool" where
  "evolved e e' \<longleftrightarrow> e' = e \<or> e = None \<or> (\<not> solid e \<and> is_resolved e')"

section \<open>Properties of the query normalizer\<close>

lemmas string_simps =
  str_def isspace_def lstrip_def rstrip_def strip_def startswith_def endswith_def split_def
  split_ws_def or_empty_def ascii_upper_def ascii_digit_def ascii_letter_def last_n_def

lemma strip_or_empty:
  "(if or_empty a \<noteq> [] then strip (or_empty a) else []) = strip (or_empty a)"
  by (simp add: strip_def lstrip_def rstrip_def)

text \<open>
  Claim C7, as amended. \<open>build_query\<close> returns \<open>None\<close> exactly when the address is absent
  or empty after trimming, or the country code is absent or, once upper-cased, does not
  have exactly two characters; the source tests the length of the code only, not that its
  characters are letters. For every other input the result is a non-empty query.
\<close>

theorem build_query_none_iff:
  "(build_query E address country_code = None \<longleftrightarrow>
      strip (or_empty address) = [] \<or> length (str_upper E (or_empty country_code)) \<noteq> 2) \<and>
   (\<forall>q. build_query E address country_code = Some q \<longrightarrow> q \<noteq> [])"
  unfolding build_query_def Let_def strip_or_empty
  by (auto simp: endswith_def)

theorem build_query_none_iff_witness:
  "build_query ascii_env (Some (str '' Split '')) (Some (str ''hr'')) = Some (str ''Split, Croatia'') \<and>
   strip (str '' Split '') \<noteq> [] \<and> length (ascii_upper (str ''hr'')) = 2 \<and>
   str ''Split, Croatia'' \<noteq> []"
  using build_query_none_iff [of ascii_env "Some (str '' Split '')" "Some (str ''hr'')"]
  by (simp add: build_query_def ascii_env_def COUNTRY_NAMES_def string_simps)

text \<open>
  Claim C7 as stated fails: the country code \<open>12\<close> is not two letters, and the normalizer
  returns a query for it, with the code passed through as the country name.
\<close>

theorem build_query_two_digits_counterexample:
  "\<not> spec_two_letters (Some (str ''12'')) \<and>
   build_query ascii_env (Some (str ''Split'')) (Some (str ''12'')) = Some (str ''Split, 12'')"
  by (simp add: spec_two_letters_def build_query_def ascii_env_def COUNTRY_NAMES_def string_simps)

section \<open>Properties of the generic fallback generator\<close>

lemma startswith_contains: "startswith xs sub \<Longrightarrow> contains xs sub"
  by (cases xs) (auto simp: startswith_def)

lemma contains_append: "contains xs sub \<Longrightarrow> contains (a @ xs) sub"
  by (induction a) auto

lemma contains_infix: "contains (a @ sep @ b) sep"
  by (rule contains_append, rule startswith_contains) (simp add: startswith_def)

lemma join_contains: "2 \<le> length ps \<Longrightarrow> contains (join sep ps) sep"
proof (cases ps)
  case Nil
  assume "2 \<le> length ps"
  with Nil show ?thesis by simp
next
  case (Cons p qs)
  assume len: "2 \<le> length ps"
  with Cons obtain q rs where "qs = q # rs" by (cases qs) auto
  with Cons show ?thesis by (simp add: contains_infix)
qed

lemma length_last_n: "n \<le> length xs \<Longrightarrow> length (last_n n xs) = n"
  by (simp add: last_n_def)

lemma contains_subset: "contains xs sub \<Longrightarrow> set sub \<subseteq> set xs \<and> length sub \<le> length xs"
proof (induction xs)
  case Nil
  then show ?case by simp
next
  case (Cons c cs)
  show ?case
  proof (cases "startswith (c # cs) sub")
    case True
    then have eq: "take (length sub) (c # cs) = sub" by (simp add: startswith_def)
    have "set (take (length sub) (c # cs)) \<subseteq> set (c # cs)" by (rule set_take_subset)
    moreover have "length (take (length sub) (c # cs)) \<le> length (c # cs)" by simp
    ultimately show ?thesis unfolding eq by simp
  next
    case False
    with Cons show ?thesis by auto
  qed
qed

lemma fallback_candidates_contain_sep:
  "q \<in> set (fallback_queries E cache_key) \<Longrightarrow> q \<noteq> cache_key \<and> contains q (str '', '')"
  unfolding fallback_queries_def Let_def
  by (auto simp: join_contains length_last_n contains_infix split: if_splits)

lemma sep_not_single_token:
  assumes "contains q (str '', '')"
  shows "2 \<le> length q \<and> \<not> single_token q"
proof -
  from contains_subset [OF assms]
  have s: "set (str '', '') \<subseteq> set q" and l: "length (str '', '') \<le> length q"
    by simp_all
  from s have "32 \<in> set q" by (simp add: str_def)
  moreover have "isspace 32" by (simp add: isspace_def)
  ultimately have "list_ex isspace q" unfolding list_ex_iff by blast
  with l show ?thesis by (simp add: single_token_def str_def)
qed

text \<open>
  Claim C3, as amended. No candidate of the generic fallback generator equals the input
  query, and every candidate contains the separator \<open>", "\<close>: it has at least two
  characters and is never a single token, numeric or not. The generator removes no
  duplicates and has no other length threshold.
\<close>

theorem fallback_queries_candidates:
  "\<forall>q \<in> set (fallback_queries E cache_key).
     q \<noteq> cache_key \<and> contains q (str '', '') \<and> 2 \<le> length q \<and> \<not> single_token q"
  using fallback_candidates_contain_sep sep_not_single_token by blast

theorem fallback_queries_candidates_witness:
  "str ''Split, Croatia'' \<in> set (fallback_queries ascii_env (str ''Ulica 5a, Split, Croatia'')) \<and>
   str ''Split, Croatia'' \<noteq> str ''Ulica 5a, Split, Croatia'' \<and>
   contains (str ''Split, Croatia'') (str '', '') \<and> \<not> single_token (str ''Split, Croatia'')"
  using fallback_queries_candidates [of ascii_env "str ''Ulica 5a, Split, Croatia''"]
  by (simp add: fallback_queries_def street_no_match_def ascii_env_def string_simps)

text \<open>
  Claim C3 as stated fails. The query built from the address \<open>Split, Split, Split\<close> gets
  the same candidate twice, and the query \<open>Main St, , XK\<close> gets a candidate of four
  characters, below the threshold of five that the venue variant applies.
\<close>

theorem fallback_queries_counterexample:
  "build_query ascii_env (Some (str ''Split, Split, Split'')) (Some (str ''HR'')) =
     Some (str ''Split, Split, Split, Croatia'') \<and>
   fallback_queries ascii_env (str ''Split, Split, Split, Croatia'') =
     [str ''Split, Split, Croatia'', str ''Split, Split, Croatia'', str ''Split, Croatia''] \<and>
   \<not> distinct (fallback_queries ascii_env (str ''Split, Split, Split, Croatia'')) \<and>
   build_query ascii_env (Some (str ''Main St, , XK'')) (Some (str ''XK'')) =
     Some (str ''Main St, , XK'') \<and>
   fallback_queries ascii_env (str ''Main St, , XK'') = [str '', XK''] \<and>
   length (str '', XK'') < MIN_CANDIDATE_LENGTH"
  by (simp add: fallback_queries_def build_query_def COUNTRY_NAMES_def street_no_match_def
      ascii_env_def MIN_CANDIDATE_LENGTH_def string_simps)

section \<open>Properties of the cache store\<close>

lemma corrections_not_keys:
  "\<forall>v \<in> set (map snd CACHE_QUERY_CORRECTIONS). v \<notin> set KEYS_TO_PURGE_FROM_CACHE"
  by (simp add: KEYS_TO_PURGE_FROM_CACHE_def CACHE_QUERY_CORRECTIONS_def CAMPUS_SPLIT_CANONICAL_def str_def)

lemma correct_query_not_purged: "correct_query q \<notin> set KEYS_TO_PURGE_FROM_CACHE"
proof (cases "map_of CACHE_QUERY_CORRECTIONS q")
  case None
  then have "q \<notin> fst ` set CACHE_QUERY_CORRECTIONS" by (simp add: map_of_eq_None_iff)
  with None show ?thesis by (simp add: correct_query_def KEYS_TO_PURGE_FROM_CACHE_def)
next
  case (Some v)
  then have "(q, v) \<in> set CACHE_QUERY_CORRECTIONS" by (rule map_of_SomeD)
  then have "v \<in> set (map snd CACHE_QUERY_CORRECTIONS)" by force
  with corrections_not_keys have "v \<notin> set KEYS_TO_PURGE_FROM_CACHE" by blast
  with Some show ?thesis by (simp add: correct_query_def)
qed

lemma purge_keys_eq:
  "purge_keys ks (d, p) =
     ((\<lambda>x. if x \<in> set ks then None else d x), p \<or> (\<exists>k \<in> set ks. d k \<noteq> None))"
proof (induction ks arbitrary: d p)
  case Nil
  then show ?case by simp
next
  case (Cons k ks)
  show ?case
  proof (cases "d k")
    case None
    then have "purge_keys (k # ks) (d, p) = purge_keys ks (d, p)" by simp
    also have "\<dots> = ((\<lambda>x. if x \<in> set ks then None else d x), p \<or> (\<exists>k \<in> set ks. d k \<noteq> None))"
      by (rule Cons.IH)
    also have "\<dots> = ((\<lambda>x. if x \<in> set (k # ks) then None else d x),
                     p \<or> (\<exists>k \<in> set (k # ks). d k \<noteq> None))"
      using None by (auto simp: fun_eq_iff)
    finally show ?thesis .
  next
    case (Some e)
    then have "purge_keys (k # ks) (d, p) = purge_keys ks (d(k := None), True)" by simp
    also have "\<dots> = ((\<lambda>x. if x \<in> set ks then None else (d(k := None)) x),
                     True \<or> (\<exists>k' \<in> set ks. (d(k := None)) k' \<noteq> None))"
      by (rule Cons.IH)
    also have "\<dots> = ((\<lambda>x. if x \<in> set (k # ks) then None else d x),
                     p \<or> (\<exists>k \<in> set (k # ks). d k \<noteq> None))"
      using Some by (auto simp: fun_eq_iff)
    finally show ?thesis .
  qed
qed


lemma purged_id: "\<forall>k \<in> set KEYS_TO_PURGE_FROM_CACHE. d k = None \<Longrightarrow> purged d = d"
  by (auto simp: purged_def fun_eq_iff)

lemma purged_purged [simp]: "purged (purged d) = purged d"
  by (simp add: purged_def fun_eq_iff)

lemma load_cache_NotJson:
  "cache_file w = Some NotJson \<Longrightarrow> load_cache w = (Inr Map.empty, w)"
  by (simp add: load_cache_def migrate_legacy_cache_def split: option.splits)

lemma load_cache_NotUtf8:
  "cache_file w = Some NotUtf8 \<Longrightarrow> load_cache w = (Inl UnicodeDecodeError, w)"
  by (simp add: load_cache_def migrate_legacy_cache_def split: option.splits)

lemma load_cache_TooDeep:
  "cache_file w = Some TooDeep \<Longrightarrow> load_cache w = (Inl RecursionError, w)"
  by (simp add: load_cache_def migrate_legacy_cache_def split: option.splits)

lemma load_cache_Json:
  "cache_file w = Some (Json d) \<Longrightarrow>
   load_cache w =
     (Inr (purged d),
      if \<exists>k \<in> set KEYS_TO_PURGE_FROM_CACHE. d k \<noteq> None then save_cache (purged d) w else w)"
  by (simp add: load_cache_def migrate_legacy_cache_def purge_keys_eq purged_def
      split: option.splits)

lemma load_cache_missing:
  "cache_file w = None \<Longrightarrow> legacy_file w = None \<Longrightarrow> load_cache w = (Inr Map.empty, w)"
  by (simp add: load_cache_def migrate_legacy_cache_def)

lemma load_cache_legacy_raises:
  "cache_file w = None \<Longrightarrow> legacy_file w = Some l \<Longrightarrow> json_load l = Inl e \<Longrightarrow>
   load_cache w = (Inl e, w)"
  by (simp add: load_cache_def migrate_legacy_cache_def)

lemma load_cache_legacy_Json:
  "cache_file w = None \<Longrightarrow> legacy_file w = Some (Json d) \<Longrightarrow>
   load_cache w =
     (Inr (purged d),
      if \<exists>k \<in> set KEYS_TO_PURGE_FROM_CACHE. d k \<noteq> None
      then save_cache (purged d) (save_cache d w) else save_cache d w)"
  by (simp add: load_cache_def migrate_legacy_cache_def purge_keys_eq purged_def save_cache_def)

text \<open>The cases of a load, as one rule.\<close>

lemma load_cache_cases:
  obtains
    (NotJson) "cache_file w = Some NotJson" "load_cache w = (Inr Map.empty, w)"
  | (Json) d where "cache_file w = Some (Json d)"
      "load_cache w =
         (Inr (purged d),
          if \<exists>k \<in> set KEYS_TO_PURGE_FROM_CACHE. d k \<noteq> None then save_cache (purged d) w else w)"
  | (Missing) "cache_file w = None" "legacy_file w = None" "load_cache w = (Inr Map.empty, w)"
  | (Raises) e where "load_cache w = (Inl e, w)"
  | (Legacy_Json) d where "cache_file w = None" "legacy_file w = Some (Json d)"
      "load_cache w =
         (Inr (purged d),
          if \<exists>k \<in> set KEYS_TO_PURGE_FROM_CACHE. d k \<noteq> None
          then save_cache (purged d) (save_cache d w) else save_cache d w)"
proof (cases "cache_file w")
  case None
  note cf = this
  show ?thesis
  proof (cases "legacy_file w")
    case None
    with cf show ?thesis using Missing load_cache_missing by blast
  next
    case (Some l)
    show ?thesis
    proof (cases "json_load l")
      case (Inl e)
      from load_cache_legacy_raises [OF cf Some Inl] show ?thesis by (rule Raises)
    next
      case (Inr d)
      then have "l = Json d" by (cases l) simp_all
      with cf Some show ?thesis using Legacy_Json load_cache_legacy_Json by blast
    qed
  qed
next
  case (Some c)
  show ?thesis
  proof (cases c)
    case NotUtf8
    with Some show ?thesis using Raises load_cache_NotUtf8 by blast
  next
    case NotJson
    with Some show ?thesis using that(1) load_cache_NotJson by blast
  next
    case TooDeep
    with Some show ?thesis using Raises load_cache_TooDeep by blast
  next
    case (Json d)
    with Some show ?thesis using that(2) load_cache_Json by blast
  qed
qed

lemma load_cache_frame:
  assumes "load_cache w = (r, w')"
  shows "now w' = now w \<and> last_request_time w' = last_request_time w \<and>
         requests w' = requests w \<and> legacy_file w' = legacy_file w"
  using assms by (cases w rule: load_cache_cases) (auto simp: save_cache_def split: if_splits)

lemma load_cache_error: "load_cache w = (Inl e, w') \<Longrightarrow> w' = w"
  by (cases w rule: load_cache_cases) (auto split: if_splits)

lemma load_cache_stored:
  assumes "load_cache w = (Inr c, w')"
  shows "stored w' = c"
  using assms
  by (cases w rule: load_cache_cases)
     (auto simp: save_cache_def stored_def purged_id split: if_splits)

lemma load_cache_no_purge_key:
  assumes "load_cache w = (Inr c, w')"
  shows "\<forall>k \<in> set KEYS_TO_PURGE_FROM_CACHE. c k = None"
  using assms by (cases w rule: load_cache_cases) (auto simp: purged_def split: if_splits)

lemma load_cache_keeps:
  assumes "load_cache w = (Inr c, w')" and "cache_file w \<noteq> None"
    and "k \<notin> set KEYS_TO_PURGE_FROM_CACHE"
  shows "c k = stored w k"
  using assms by (cases w rule: load_cache_cases) (auto simp: purged_def stored_def split: if_splits)

lemma load_cache_idem:
  assumes "load_cache w = (Inr c, w')"
  shows "load_cache w' = (Inr c, w')"
proof (cases w rule: load_cache_cases)
  case NotJson
  with assms show ?thesis by simp
next
  case (Json d)
  with assms have c: "c = purged d" by simp
  have np: "\<not> (\<exists>k \<in> set KEYS_TO_PURGE_FROM_CACHE. purged d k \<noteq> None)"
    by (simp add: purged_def)
  show ?thesis
  proof (cases "\<exists>k \<in> set KEYS_TO_PURGE_FROM_CACHE. d k \<noteq> None")
    case True
    with Json assms have w': "w' = save_cache (purged d) w" by simp
    then have "cache_file w' = Some (Json (purged d))" by (simp add: save_cache_def)
    from load_cache_Json [OF this] np c show ?thesis by simp
  next
    case False
    with Json assms have "w' = w" by simp
    moreover from False have "purged d = d" by (simp add: purged_id)
    ultimately show ?thesis using Json False c by simp
  qed
next
  case Missing
  with assms show ?thesis by simp
next
  case (Raises e)
  with assms show ?thesis by simp
next
  case (Legacy_Json d)
  with assms have c: "c = purged d" by simp
  have np: "\<not> (\<exists>k \<in> set KEYS_TO_PURGE_FROM_CACHE. purged d k \<noteq> None)"
    by (simp add: purged_def)
  show ?thesis
  proof (cases "\<exists>k \<in> set KEYS_TO_PURGE_FROM_CACHE. d k \<noteq> None")
    case True
    with Legacy_Json assms have w': "w' = save_cache (purged d) (save_cache d w)" by simp
    then have "cache_file w' = Some (Json (purged d))" by (simp add: save_cache_def)
    from load_cache_Json [OF this] np c show ?thesis by simp
  next
    case False
    with Legacy_Json assms have "w' = save_cache d w" by simp
    then have cf: "cache_file w' = Some (Json d)" by (simp add: save_cache_def)
    from False have "purged d = d" by (simp add: purged_id)
    with load_cache_Json [OF cf] False c show ?thesis by simp
  qed
qed

lemmas table_simps =
  KEYS_TO_PURGE_FROM_CACHE_def CACHE_QUERY_CORRECTIONS_def CAMPUS_SPLIT_CANONICAL_def
  COUNTRY_NAMES_def correct_query_def

text \<open>
  Claim C5. When \<open>_load_cache\<close> returns, the dictionary it returns has no key of the
  correction table; every other key of a cache file that held a dictionary is kept as
  it was; and if the file held one of those keys, the file holds the cleaned dictionary
  when the load returns, so an entry cached under an old key is gone at the next load.
\<close>

theorem load_cache_purges:
  assumes "load_cache w = (Inr data, w')"
  shows "(\<forall>k \<in> set KEYS_TO_PURGE_FROM_CACHE. data k = None) \<and>
         (\<forall>d. cache_file w = Some (Json d) \<longrightarrow>
            (\<forall>k. k \<notin> set KEYS_TO_PURGE_FROM_CACHE \<longrightarrow> data k = d k) \<and>
            ((\<exists>k \<in> set KEYS_TO_PURGE_FROM_CACHE. d k \<noteq> None) \<longrightarrow>
               cache_file w' = Some (Json data)))"
proof (intro conjI allI impI)
  show "\<forall>k \<in> set KEYS_TO_PURGE_FROM_CACHE. data k = None"
    using assms by (rule load_cache_no_purge_key)
next
  fix d k
  assume "cache_file w = Some (Json d)" and "k \<notin> set KEYS_TO_PURGE_FROM_CACHE"
  with load_cache_keeps [OF assms] show "data k = d k" by (simp add: stored_def)
next
  fix d
  assume f: "cache_file w = Some (Json d)"
    and "\<exists>k \<in> set KEYS_TO_PURGE_FROM_CACHE. d k \<noteq> None"
  with load_cache_Json [OF f] assms show "cache_file w' = Some (Json data)"
    by (simp add: save_cache_def)
qed

theorem load_cache_purges_witness:
  "\<exists>data w'.
     load_cache (world0\<lparr>cache_file := Some (Json
        [str ''Velika dvorana, Croatia'' \<mapsto> Resolved (JStr (str ''43.5'')) (JStr (str ''16.5'')),
         str ''Split, Croatia'' \<mapsto> Negative])\<rparr>) = (Inr data, w') \<and>
     data (str ''Velika dvorana, Croatia'') = None \<and>
     data (str ''Split, Croatia'') = Some Negative \<and>
     cache_file w' = Some (Json data)"
proof -
  let ?d = "[str ''Velika dvorana, Croatia'' \<mapsto> Resolved (JStr (str ''43.5'')) (JStr (str ''16.5'')),
         str ''Split, Croatia'' \<mapsto> Negative]"
  let ?w = "world0\<lparr>cache_file := Some (Json ?d)\<rparr>"
  have f: "cache_file ?w = Some (Json ?d)" by simp
  have bad: "str ''Velika dvorana, Croatia'' \<in> set KEYS_TO_PURGE_FROM_CACHE"
    by (simp add: table_simps)
  have good: "str ''Split, Croatia'' \<notin> set KEYS_TO_PURGE_FROM_CACHE"
    by (simp add: table_simps str_def)
  have present: "\<exists>k \<in> set KEYS_TO_PURGE_FROM_CACHE. ?d k \<noteq> None"
    using bad by (intro bexI [of _ "str ''Velika dvorana, Croatia''"]) (simp_all add: str_def)
  have l: "load_cache ?w = (Inr (purged ?d), save_cache (purged ?d) ?w)"
    using load_cache_Json [OF f] present by simp
  from load_cache_purges [OF l] f bad good present
  have "purged ?d (str ''Velika dvorana, Croatia'') = None"
    and "purged ?d (str ''Split, Croatia'') = ?d (str ''Split, Croatia'')"
    and "cache_file (save_cache (purged ?d) ?w) = Some (Json (purged ?d))"
    by blast+
  with l show ?thesis by (intro exI [of _ "purged ?d"] exI [of _ "save_cache (purged ?d) ?w"]) (simp add: str_def)
qed




section \<open>The steps of the engine\<close>














subsection \<open>The fetcher and the clock\<close>

lemma fetch_nominatim_fields:
  assumes "fetch_nominatim E q cc w = (r, w')"
  shows "last_request_time w' =
           (if fl_sub E (now w) (last_request_time w) < RATE_LIMIT_SEC
            then fl_add E (now w) (fl_sub E RATE_LIMIT_SEC (fl_sub E (now w) (last_request_time w)))
            else now w)"
    and "requests w' = requests w @ [(last_request_time w', q, cc)]"
    and "now w' = fl_add E (last_request_time w') (latency E (length (requests w)))"
    and "cache_file w' = cache_file w" and "legacy_file w' = legacy_file w"
  using assms
  by (auto simp: fetch_nominatim_def Let_def sleep_def split: response.splits if_splits)









section \<open>The cache between two loads\<close>

lemma settled_load: "load_cache w = (Inr c, w1) \<Longrightarrow> settled c w1"
  unfolding settled_def by (rule load_cache_idem)

lemma settled_stored: "settled c w \<Longrightarrow> stored w = c"
  unfolding settled_def by (rule load_cache_stored)

lemma settled_no_purge_key: "settled c w \<Longrightarrow> k \<in> set KEYS_TO_PURGE_FROM_CACHE \<Longrightarrow> c k = None"
  unfolding settled_def using load_cache_no_purge_key by blast

lemma settled_files:
  assumes "settled c w" and "cache_file w' = cache_file w" and "legacy_file w' = legacy_file w"
  shows "settled c w'"
proof (cases w rule: load_cache_cases)
  case NotJson
  with assms load_cache_NotJson [of w'] show ?thesis by (simp add: settled_def)
next
  case (Json d)
  with assms(1) have c: "c = purged d" by (simp add: settled_def)
  have "\<not> (\<exists>k \<in> set KEYS_TO_PURGE_FROM_CACHE. d k \<noteq> None)"
  proof
    assume p: "\<exists>k \<in> set KEYS_TO_PURGE_FROM_CACHE. d k \<noteq> None"
    with Json(2) have "load_cache w = (Inr (purged d), save_cache (purged d) w)" by simp
    moreover have "load_cache w = (Inr c, w)" using assms(1) by (simp add: settled_def)
    ultimately have "save_cache (purged d) w = w" by (metis prod.inject)
    then have "cache_file (save_cache (purged d) w) = cache_file w" by simp
    then have "cache_file w = Some (Json (purged d))" by (simp add: save_cache_def)
    with Json have "d = purged d" by simp
    with p show False unfolding purged_def by (metis (full_types))
  qed
  with load_cache_Json [of w' d] Json assms c show ?thesis by (simp add: settled_def)
next
  case Missing
  with assms load_cache_missing [of w'] show ?thesis by (simp add: settled_def)
next
  case (Raises e)
  with assms(1) show ?thesis by (simp add: settled_def)
next
  case (Legacy_Json d)
  have "load_cache w = (Inr c, w)" using assms(1) by (simp add: settled_def)
  then have "cache_file (snd (load_cache w)) = cache_file w" by simp
  with Legacy_Json show ?thesis by (simp add: save_cache_def split: if_splits)
qed

lemma settled_put:
  assumes "settled c w" and "k \<notin> set KEYS_TO_PURGE_FROM_CACHE"
  shows "settled (c(k \<mapsto> e)) (save_cache (c(k \<mapsto> e)) w)"
proof -
  let ?c = "c(k \<mapsto> e)"
  have f: "cache_file (save_cache ?c w) = Some (Json ?c)" by (simp add: save_cache_def)
  have "\<forall>k' \<in> set KEYS_TO_PURGE_FROM_CACHE. ?c k' = None"
    using assms settled_no_purge_key by auto
  then have "\<not> (\<exists>k' \<in> set KEYS_TO_PURGE_FROM_CACHE. ?c k' \<noteq> None)" and "purged ?c = ?c"
    by (simp_all add: purged_id)
  with load_cache_Json [OF f] show ?thesis by (simp add: settled_def)
qed

lemma load_put_save_settled:
  "settled c w \<Longrightarrow> load_put_save k e w = (Inr (), save_cache (c(k \<mapsto> e)) w)"
  by (simp add: settled_def load_put_save_def)

lemma fetch_nominatim_result:
  "fst (fetch_nominatim E q cc w) =
     (case reply E (length (requests w)) q cc of
        Fault \<Rightarrow> Inl TransportFault
      | NoMatch \<Rightarrow> Inr (JNull, JNull)
      | Match lat lon \<Rightarrow> Inr (if truthy lat \<and> truthy lon then (lat, lon) else (JNull, JNull)))"
  by (simp add: fetch_nominatim_def Let_def sleep_def split: response.splits)

lemma float_pair_not_None: "float_pair E lat lng \<noteq> Inr None"
  by (simp add: float_pair_def split: sum.splits)

text \<open>
  What a fallback loop leaves: the files as they were, with no coordinate, or the entry of
  the query written with the coordinate of a candidate.
\<close>

lemma fallbacks_of_negative_outcome:
  assumes "fallbacks_of_negative E q cc c fbs w = (r, w')"
  shows "legacy_file w' = legacy_file w \<and>
    ((cache_file w' = cache_file w \<and> (r = Inr None \<or> (\<exists>e. r = Inl e))) \<or>
     (\<exists>lat lng. truthy lat \<and> truthy lng \<and> r = float_pair E lat lng \<and>
        cache_file w' = Some (Json (c(q \<mapsto> Resolved lat lng)))))"
  using assms
proof (induction fbs arbitrary: w)
  case Nil
  then show ?case by auto
next
  case (Cons fb fbs)
  obtain r1 w1 where f: "fetch_nominatim E fb cc w = (r1, w1)" by (cases "fetch_nominatim E fb cc w")
  note ff = fetch_nominatim_fields(4,5) [OF f]
  show ?case
  proof (cases r1)
    case (Inl e)
    with Cons.prems f ff show ?thesis by auto
  next
    case (Inr p)
    obtain lat lng where p: "p = (lat, lng)" by (cases p)
    show ?thesis
    proof (cases "truthy lat \<and> truthy lng")
      case True
      with Cons.prems f Inr p ff have "r = float_pair E lat lng"
        "cache_file w' = Some (Json (c(q \<mapsto> Resolved lat lng)))"
        "legacy_file w' = legacy_file w"
        by (auto simp: save_cache_def)
      with True show ?thesis by blast
    next
      case False
      with Cons.prems f Inr p have "fallbacks_of_negative E q cc c fbs w1 = (r, w')" by auto
      from Cons.IH [OF this] ff show ?thesis by simp
    qed
  qed
qed

lemma fallbacks_of_absent_outcome:
  assumes "fallbacks_of_absent E q cc fbs w = (r, w')" and "settled c w"
  shows "legacy_file w' = legacy_file w \<and>
    ((cache_file w' = cache_file w \<and> (r = Inr None \<or> (\<exists>e. r = Inl e))) \<or>
     (\<exists>lat lng. truthy lat \<and> truthy lng \<and> r = float_pair E lat lng \<and>
        cache_file w' = Some (Json (c(q \<mapsto> Resolved lat lng)))))"
  using assms
proof (induction fbs arbitrary: w)
  case Nil
  then show ?case by auto
next
  case (Cons fb fbs)
  obtain r1 w1 where f: "fetch_nominatim E fb cc w = (r1, w1)" by (cases "fetch_nominatim E fb cc w")
  note ff = fetch_nominatim_fields(4,5) [OF f]
  from settled_files [OF Cons.prems(2) ff] have s1: "settled c w1" .
  show ?case
  proof (cases r1)
    case (Inl e)
    with Cons.prems f ff show ?thesis by auto
  next
    case (Inr p)
    obtain lat lng where p: "p = (lat, lng)" by (cases p)
    show ?thesis
    proof (cases "truthy lat \<and> truthy lng")
      case True
      with Cons.prems(1) f Inr p ff load_put_save_settled [OF s1, of q "Resolved lat lng"]
      have "r = float_pair E lat lng"
        "cache_file w' = Some (Json (c(q \<mapsto> Resolved lat lng)))"
        "legacy_file w' = legacy_file w"
        by (auto simp: save_cache_def)
      with True show ?thesis by blast
    next
      case False
      with Cons.prems f Inr p have "fallbacks_of_absent E q cc fbs w1 = (r, w')" by auto
      from Cons.IH [OF this s1] ff show ?thesis by simp
    qed
  qed
qed

text \<open>The paths through \<open>geocode_address\<close>, once the query is built and the cache loaded.\<close>

lemma geocode_address_hit:
  assumes "build_query E address country_code = Some q0" and "load_cache w = (Inr c, w0)"
    and "c (correct_query q0) = Some (Resolved lat lng)"
  shows "geocode_address E address country_code skip_api fallbacks w =
    (if truthy lat \<and> truthy lng then float_pair E lat lng else Inr None, w0)"
  using assms by (simp add: geocode_address_def Let_def)

lemma geocode_address_negative:
  assumes "build_query E address country_code = Some q0" and "load_cache w = (Inr c, w0)"
    and "c (correct_query q0) = Some Negative"
  shows "geocode_address E address country_code skip_api fallbacks w =
    (if skip_api then (Inr None, w0)
     else if fallbacks
     then fallbacks_of_negative E (correct_query q0) (str_upper E (or_empty country_code)) c
            (fallback_queries E (correct_query q0)) w0
     else (Inr None, w0))"
  using assms by (simp add: geocode_address_def Let_def)

lemma geocode_address_skipped:
  assumes "build_query E address country_code = Some q0" and "load_cache w = (Inr c, w0)"
    and "c (correct_query q0) = None"
  shows "geocode_address E address country_code True fallbacks w = (Inr None, w0)"
  using assms by (simp add: geocode_address_def Let_def)

lemma geocode_address_fault:
  assumes "build_query E address country_code = Some q0" and "load_cache w = (Inr c, w0)"
    and "c (correct_query q0) = None"
    and "fetch_nominatim E (correct_query q0) (str_upper E (or_empty country_code)) w0 = (Inl e, w1)"
  shows "geocode_address E address country_code False fallbacks w = (Inl e, w1)"
  using assms by (simp add: geocode_address_def Let_def)

lemma geocode_address_found:
  assumes "build_query E address country_code = Some q0" and "load_cache w = (Inr c, w0)"
    and "c (correct_query q0) = None"
    and "fetch_nominatim E (correct_query q0) (str_upper E (or_empty country_code)) w0 =
           (Inr (lat, lng), w1)"
    and "truthy lat" and "truthy lng"
  shows "geocode_address E address country_code False fallbacks w =
    (case load_put_save (correct_query q0) (Resolved lat lng) w1 of
       (Inl e, w3) \<Rightarrow> (Inl e, w3)
     | (Inr _, w3) \<Rightarrow> (float_pair E lat lng, w3))"
  using assms by (simp add: geocode_address_def Let_def)

lemma geocode_address_not_found:
  assumes "build_query E address country_code = Some q0" and "load_cache w = (Inr c, w0)"
    and "c (correct_query q0) = None"
    and "fetch_nominatim E (correct_query q0) (str_upper E (or_empty country_code)) w0 =
           (Inr (lat, lng), w1)"
    and "\<not> (truthy lat \<and> truthy lng)"
    and "(if fallbacks
          then fallbacks_of_absent E (correct_query q0) (str_upper E (or_empty country_code))
                 (fallback_queries E (correct_query q0)) w1
          else (Inr None, w1)) = (r2, w2)"
  shows "geocode_address E address country_code False fallbacks w =
    (case r2 of
       Inl e \<Rightarrow> (Inl e, w2)
     | Inr (Some xy) \<Rightarrow> (Inr (Some xy), w2)
     | Inr None \<Rightarrow>
         (case load_put_save (correct_query q0) Negative w2 of
            (Inl e, w4) \<Rightarrow> (Inl e, w4)
          | (Inr _, w4) \<Rightarrow> (Inr None, w4)))"
  using assms by (auto simp: geocode_address_def Let_def split: if_splits)

text \<open>
  The outcomes of one call of the resolver, from the dictionary \<open>c\<close> that its first load
  returns: the cache is left as loaded, or the entry of the query is written.
\<close>

lemma geocode_address_outcome:
  assumes bq: "build_query E address country_code = Some q0"
    and l: "load_cache w = (Inr c, w0)"
    and g: "geocode_address E address country_code skip_api fallbacks w = (r, w')"
  shows "settled (stored w') w' \<and>
    ((stored w' = c \<and>
       ((\<exists>e. r = Inl e) \<or>
        (\<exists>lat lng. c (correct_query q0) = Some (Resolved lat lng) \<and> w' = w0 \<and>
           r = (if truthy lat \<and> truthy lng then float_pair E lat lng else Inr None)) \<or>
        (c (correct_query q0) = Some Negative \<and> r = Inr None) \<or>
        (c (correct_query q0) = None \<and> skip_api \<and> w' = w0 \<and> r = Inr None))) \<or>
     (\<exists>lat lng. truthy lat \<and> truthy lng \<and> r = float_pair E lat lng \<and>
        stored w' = c(correct_query q0 \<mapsto> Resolved lat lng) \<and> \<not> skip_api \<and>
        (c (correct_query q0) = None \<or> c (correct_query q0) = Some Negative \<and> fallbacks)) \<or>
     (r = Inr None \<and> stored w' = c(correct_query q0 \<mapsto> Negative) \<and>
        c (correct_query q0) = None \<and> \<not> skip_api))"
proof -
  let ?q = "correct_query q0" and ?cc = "str_upper E (or_empty country_code)"
  have nk: "?q \<notin> set KEYS_TO_PURGE_FROM_CACHE" by (rule correct_query_not_purged)
  from settled_load [OF l] have s0: "settled c w0" .
  note st0 = settled_stored [OF s0]
  \<comment> \<open>a world with the files of \<open>w0\<close>\<close>
  have same: "\<And>v::world. cache_file v = cache_file w0 \<Longrightarrow> legacy_file v = legacy_file w0 \<Longrightarrow>
      settled c v \<and> stored v = c"
    using settled_files [OF s0] settled_stored by blast
  \<comment> \<open>a world in which the entry of the query has been written\<close>
  have put: "\<And>(v::world) e. cache_file v = Some (Json (c(?q \<mapsto> e))) \<Longrightarrow> legacy_file v = legacy_file w0 \<Longrightarrow>
      settled (c(?q \<mapsto> e)) v \<and> stored v = c(?q \<mapsto> e)"
  proof -
    fix v :: world and e
    assume a: "cache_file v = Some (Json (c(?q \<mapsto> e)))" "legacy_file v = legacy_file w0"
    have "settled (c(?q \<mapsto> e)) (save_cache (c(?q \<mapsto> e)) w0)" by (rule settled_put [OF s0 nk])
    from settled_files [OF this, of v] a
    show "settled (c(?q \<mapsto> e)) v \<and> stored v = c(?q \<mapsto> e)"
      by (simp add: save_cache_def stored_def)
  qed
  show ?thesis
  proof (cases "c ?q")
    case (Some en)
    show ?thesis
    proof (cases en)
      case (Resolved lat lng)
      with Some bq l g have "w' = w0"
        "r = (if truthy lat \<and> truthy lng then float_pair E lat lng else Inr None)"
        by (auto simp: geocode_address_def Let_def split: if_splits)
      with Some Resolved s0 st0 show ?thesis by auto
    next
      case Negative
      show ?thesis
      proof (cases "\<not> skip_api \<and> fallbacks")
        case False
        with Some Negative bq l g have "w' = w0" "r = Inr None"
          by (auto simp: geocode_address_def Let_def split: if_splits)
        with Some Negative s0 st0 show ?thesis by auto
      next
        case True
        with Some Negative bq l g
        have f: "fallbacks_of_negative E ?q ?cc c (fallback_queries E ?q) w0 = (r, w')"
          by (simp add: geocode_address_def Let_def)
        from fallbacks_of_negative_outcome [OF f]
        consider (unchanged) "cache_file w' = cache_file w0" "legacy_file w' = legacy_file w0"
            "r = Inr None \<or> (\<exists>e. r = Inl e)"
          | (written) lat lng where "truthy lat" "truthy lng" "r = float_pair E lat lng"
            "cache_file w' = Some (Json (c(?q \<mapsto> Resolved lat lng)))" "legacy_file w' = legacy_file w0"
          by blast
        then show ?thesis
        proof cases
          case unchanged
          with same [OF unchanged(1,2)] Some Negative show ?thesis by auto
        next
          case written
          with put [OF written(4,5)] Some Negative True show ?thesis by auto
        qed
      qed
    qed
  next
    case None
    show ?thesis
    proof (cases skip_api)
      case True
      with None bq l g have "w' = w0" "r = Inr None" by (auto simp: geocode_address_def Let_def split: if_splits)
      with None True s0 st0 show ?thesis by auto
    next
      case False
      note noskip = False
      obtain r1 w1 where f: "fetch_nominatim E ?q ?cc w0 = (r1, w1)"
        by (cases "fetch_nominatim E ?q ?cc w0")
      note ff = fetch_nominatim_fields(4,5) [OF f]
      note s1 = same [OF ff]
      show ?thesis
      proof (cases r1)
        case (Inl e)
        with None noskip bq l g f have "w' = w1" "r = Inl e" by (auto simp: geocode_address_def Let_def split: if_splits)
        with s1 show ?thesis by auto
      next
        case (Inr p)
        obtain lat lng where p: "p = (lat, lng)" by (cases p)
        show ?thesis
        proof (cases "truthy lat \<and> truthy lng")
          case True
          from s1 have lp: "load_put_save ?q (Resolved lat lng) w1 =
              (Inr (), save_cache (c(?q \<mapsto> Resolved lat lng)) w1)"
            by (simp add: load_put_save_settled)
          with None noskip bq l g f Inr p True
          have w': "w' = save_cache (c(?q \<mapsto> Resolved lat lng)) w1" and r: "r = float_pair E lat lng"
            by (auto simp: geocode_address_def Let_def split: if_splits)
          from w' ff have "cache_file w' = Some (Json (c(?q \<mapsto> Resolved lat lng)))"
            "legacy_file w' = legacy_file w0" by (simp_all add: save_cache_def)
          from put [OF this] r True None noskip show ?thesis by auto
        next
          assume nt: "\<not> (truthy lat \<and> truthy lng)"
          obtain r2 w2 where fb: "(if fallbacks
              then fallbacks_of_absent E ?q ?cc (fallback_queries E ?q) w1
              else (Inr None, w1)) = (r2, w2)"
            by (cases "if fallbacks then fallbacks_of_absent E ?q ?cc (fallback_queries E ?q) w1
              else (Inr None, w1)")
          have o: "legacy_file w2 = legacy_file w1 \<and>
            ((cache_file w2 = cache_file w1 \<and> (r2 = Inr None \<or> (\<exists>e. r2 = Inl e))) \<or>
             (\<exists>lat lng. truthy lat \<and> truthy lng \<and> r2 = float_pair E lat lng \<and>
                cache_file w2 = Some (Json (c(?q \<mapsto> Resolved lat lng)))))"
          proof (cases fallbacks)
            case True
            with fb have "fallbacks_of_absent E ?q ?cc (fallback_queries E ?q) w1 = (r2, w2)" by simp
            from fallbacks_of_absent_outcome [OF this] s1 show ?thesis by blast
          next
            case False
            with fb show ?thesis by auto
          qed
          from f Inr p have f': "fetch_nominatim E ?q ?cc w0 = (Inr (lat, lng), w1)" by simp
          from g noskip have "geocode_address E address country_code False fallbacks w = (r, w')"
            by simp
          with geocode_address_not_found [OF bq l None f' nt fb]
          have g': "(case r2 of
                Inl e \<Rightarrow> (Inl e, w2)
              | Inr (Some xy) \<Rightarrow> (Inr (Some xy), w2)
              | Inr None \<Rightarrow>
                  (case load_put_save ?q Negative w2 of
                     (Inl e, w4) \<Rightarrow> (Inl e, w4)
                   | (Inr _, w4) \<Rightarrow> (Inr None, w4))) = (r, w')"
            by simp
          from o consider
              (exhausted) "cache_file w2 = cache_file w1" "legacy_file w2 = legacy_file w1" "r2 = Inr None"
            | (failed) e where "cache_file w2 = cache_file w1" "legacy_file w2 = legacy_file w1" "r2 = Inl e"
            | (written) lat2 lng2 where "truthy lat2" "truthy lng2" "r2 = float_pair E lat2 lng2"
                "cache_file w2 = Some (Json (c(?q \<mapsto> Resolved lat2 lng2)))"
                "legacy_file w2 = legacy_file w1"
            by blast
          then show ?thesis
          proof cases
            case exhausted
            with ff have f2: "cache_file w2 = cache_file w0" "legacy_file w2 = legacy_file w0" by simp_all
            from same [OF f2] have "load_put_save ?q Negative w2 =
                (Inr (), save_cache (c(?q \<mapsto> Negative)) w2)"
              by (simp add: load_put_save_settled)
            with g' exhausted have w': "w' = save_cache (c(?q \<mapsto> Negative)) w2" and r: "r = Inr None"
              by auto
            from w' f2 have "cache_file w' = Some (Json (c(?q \<mapsto> Negative)))"
              "legacy_file w' = legacy_file w0" by (simp_all add: save_cache_def)
            from put [OF this] r None noskip show ?thesis by auto
          next
            case failed
            with ff have f2: "cache_file w2 = cache_file w0" "legacy_file w2 = legacy_file w0" by simp_all
            from g' failed have "w' = w2" "r = Inl e" by auto
            with same [OF f2] show ?thesis by auto
          next
            case written
            with ff have f2: "legacy_file w2 = legacy_file w0" by simp
            have "r2 \<noteq> Inr None" using written(3) by (simp add: float_pair_not_None)
            with g' have "w' = w2" "r = r2"
              by (auto split: sum.splits option.splits)
            with put [OF written(4) f2] written None noskip show ?thesis by auto
          qed
        qed
      qed
    qed
  qed
qed

section \<open>Properties of the resolver\<close>

lemmas resolver_simps =
  geocode_address_def load_cache_def migrate_legacy_cache_def save_cache_def load_put_save_def
  fetch_nominatim_def sleep_def double_add_def double_sub_def float_pair_def py_float_def
  fallback_queries_def street_no_match_def build_query_def uncached_def Let_def
  ascii_env_def world0_def

lemmas engine_simps = resolver_simps RATE_LIMIT_SEC_def

text \<open>
  Claim C4. When \<open>skip_api\<close> is set and the loaded cache has no entry for the canonical
  query, \<open>geocode_address\<close> returns no coordinate, sends no request and leaves the query
  without an entry. A call with \<open>skip_api\<close> unset that follows, for which the provider
  answers the query with a truthy \<open>lat\<close> and \<open>lon\<close>, sends one request, stores the
  answer under the query as a Resolved entry and returns it as floats.
\<close>

theorem skipped_miss_stays_retryable:
  assumes bq: "build_query E address country_code = Some q0"
    and l: "load_cache w = (Inr c, w1)"
    and a: "c (correct_query q0) = None"
  shows "geocode_address E address country_code True fallbacks w = (Inr None, w1) \<and>
    requests w1 = requests w \<and> stored w1 (correct_query q0) = None \<and>
    (\<forall>lat lon fallbacks'.
       reply E (length (requests w1)) (correct_query q0) (str_upper E (or_empty country_code)) =
         Match lat lon \<and> truthy lat \<and> truthy lon \<longrightarrow>
       (\<exists>w2. geocode_address E address country_code False fallbacks' w1 = (float_pair E lat lon, w2) \<and>
             stored w2 (correct_query q0) = Some (Resolved lat lon) \<and>
             length (requests w2) = length (requests w1) + 1))"
proof (intro conjI allI impI)
  let ?q = "correct_query q0" and ?cc = "str_upper E (or_empty country_code)"
  show "geocode_address E address country_code True fallbacks w = (Inr None, w1)"
    by (rule geocode_address_skipped [OF bq l a])
  show "requests w1 = requests w" using load_cache_frame [OF l] by simp
  show "stored w1 ?q = None" using load_cache_stored [OF l] a by simp
  fix lat lon fallbacks'
  assume m: "reply E (length (requests w1)) ?q ?cc = Match lat lon \<and> truthy lat \<and> truthy lon"
  from settled_load [OF l] have s1: "settled c w1" .
  then have l1: "load_cache w1 = (Inr c, w1)" by (simp add: settled_def)
  obtain r wf where f: "fetch_nominatim E ?q ?cc w1 = (r, wf)" by (cases "fetch_nominatim E ?q ?cc w1")
  with fetch_nominatim_result [of E ?q ?cc w1] m
  have f': "fetch_nominatim E ?q ?cc w1 = (Inr (lat, lon), wf)" by simp
  note ff = fetch_nominatim_fields [OF f]
  from settled_files [OF s1 ff(4,5)] have "settled c wf" .
  from load_put_save_settled [OF this]
  have "load_put_save ?q (Resolved lat lon) wf = (Inr (), save_cache (c(?q \<mapsto> Resolved lat lon)) wf)" .
  with geocode_address_found [OF bq l1 a f', of fallbacks'] m
  have g: "geocode_address E address country_code False fallbacks' w1 =
      (float_pair E lat lon, save_cache (c(?q \<mapsto> Resolved lat lon)) wf)" by simp
  have "stored (save_cache (c(?q \<mapsto> Resolved lat lon)) wf) ?q = Some (Resolved lat lon)"
    by (simp add: stored_def save_cache_def)
  moreover have "length (requests (save_cache (c(?q \<mapsto> Resolved lat lon)) wf)) = length (requests w1) + 1"
    using ff(2) by (simp add: save_cache_def)
  ultimately show "\<exists>w2. geocode_address E address country_code False fallbacks' w1 = (float_pair E lat lon, w2) \<and>
      stored w2 ?q = Some (Resolved lat lon) \<and> length (requests w2) = length (requests w1) + 1"
    using g by blast
qed

theorem skipped_miss_stays_retryable_witness:
  "geocode_address split_env (Some (str ''Split'')) (Some (str ''HR'')) True True world0 =
     (Inr None, world0) \<and>
   (\<exists>w2. geocode_address split_env (Some (str ''Split'')) (Some (str ''HR'')) False True world0 =
           (Inr (Some (87 / 2, 33 / 2)), w2) \<and>
         stored w2 (str ''Split, Croatia'') =
           Some (Resolved (JStr (str ''43.5'')) (JStr (str ''16.5''))) \<and>
         length (requests w2) = 1)"
proof -
  have bq: "build_query split_env (Some (str ''Split'')) (Some (str ''HR'')) = Some (str ''Split, Croatia'')"
    by (simp add: build_query_def split_env_def ascii_env_def COUNTRY_NAMES_def string_simps)
  have cq: "correct_query (str ''Split, Croatia'') = str ''Split, Croatia''"
    by (simp add: table_simps str_def)
  have l: "load_cache world0 = (Inr Map.empty, world0)"
    by (simp add: load_cache_missing world0_def)
  have a: "Map.empty (correct_query (str ''Split, Croatia'')) = None" by simp
  have m: "reply split_env (length (requests world0)) (correct_query (str ''Split, Croatia''))
      (str_upper split_env (or_empty (Some (str ''HR'')))) =
      Match (JStr (str ''43.5'')) (JStr (str ''16.5'')) \<and>
      truthy (JStr (str ''43.5'')) \<and> truthy (JStr (str ''16.5''))"
    unfolding cq by (simp add: split_env_def ascii_env_def string_simps)
  have fp: "float_pair split_env (JStr (str ''43.5'')) (JStr (str ''16.5'')) = Inr (Some (87 / 2, 33 / 2))"
    by (simp add: float_pair_def py_float_def split_env_def ascii_env_def str_def)
  have r0: "length (requests world0) = 0" by (simp add: world0_def)
  from skipped_miss_stays_retryable [OF bq l a, of True] m
  have "geocode_address split_env (Some (str ''Split'')) (Some (str ''HR'')) True True world0 =
      (Inr None, world0)"
    and "\<exists>w2. geocode_address split_env (Some (str ''Split'')) (Some (str ''HR'')) False True world0 =
        (float_pair split_env (JStr (str ''43.5'')) (JStr (str ''16.5'')), w2) \<and>
      stored w2 (correct_query (str ''Split, Croatia'')) =
        Some (Resolved (JStr (str ''43.5'')) (JStr (str ''16.5''))) \<and>
      length (requests w2) = length (requests world0) + 1"
    by blast+
  then show ?thesis unfolding cq fp r0 by simp
qed

text \<open>
  Claim C2 as stated fails. The cache holds the negative entry of \<open>Neki Teren, Croatia\<close>
  and the provider finds \<open>Teren, Croatia\<close>, but the resolver returns no coordinate and
  leaves the world as it was: it sends no request and the entry stays negative.
\<close>

theorem negative_entry_scenario_counterexample:
  "reply teren_env 0 (str ''Teren, Croatia'') (str ''HR'') =
     Match (JStr (str ''43.5'')) (JStr (str ''16.5'')) \<and>
   geocode_address teren_env (Some (str ''Neki Teren'')) (Some (str ''HR'')) False True
     (world0\<lparr>cache_file := Some (Json [str ''Neki Teren, Croatia'' \<mapsto> Negative])\<rparr>) =
   (Inr None, world0\<lparr>cache_file := Some (Json [str ''Neki Teren, Croatia'' \<mapsto> Negative])\<rparr>)"
  by (simp add: engine_simps teren_env_def table_simps string_simps)

text \<open>
  Claim C2, as amended. The generic fallback generator has no candidate for the two-part
  query \<open>Neki Teren, Croatia\<close>, so with its negative entry cached the resolver returns
  no coordinate, sends no request and keeps the entry. For the address
  \<open>Neki Teren, Split\<close>, whose query has the candidate \<open>Split, Croatia\<close>, a provider
  that finds only that candidate gives its coordinate, and the negative entry under the
  original key \<open>Neki Teren, Split, Croatia\<close> is overwritten with the Resolved one.
\<close>

theorem negative_entry_scenario:
  "fallback_queries teren_env (str ''Neki Teren, Croatia'') = [] \<and>
   geocode_address teren_env (Some (str ''Neki Teren'')) (Some (str ''HR'')) False True
     (world0\<lparr>cache_file := Some (Json [str ''Neki Teren, Croatia'' \<mapsto> Negative])\<rparr>) =
   (Inr None, world0\<lparr>cache_file := Some (Json [str ''Neki Teren, Croatia'' \<mapsto> Negative])\<rparr>) \<and>
   fallback_queries split_env (str ''Neki Teren, Split, Croatia'') = [str ''Split, Croatia''] \<and>
   geocode_address split_env (Some (str ''Neki Teren, Split'')) (Some (str ''HR'')) False True
     (world0\<lparr>cache_file := Some (Json [str ''Neki Teren, Split, Croatia'' \<mapsto> Negative])\<rparr>) =
   (Inr (Some (87 / 2, 33 / 2)),
    world0\<lparr>cache_file := Some (Json [str ''Neki Teren, Split, Croatia'' \<mapsto>
        Resolved (JStr (str ''43.5'')) (JStr (str ''16.5''))]),
      last_request_time := 1000,
      requests := [(1000, str ''Split, Croatia'', str ''HR'')]\<rparr>)"
  by (simp add: engine_simps teren_env_def split_env_def table_simps string_simps)

subsection \<open>Calling the resolver twice\<close>

lemma fetch_nominatim_pair:
  assumes "fetch_nominatim E q cc w = (Inr (lat, lng), w')"
  shows "(truthy lat \<and> truthy lng) \<or> (lat = JNull \<and> lng = JNull)"
proof -
  from assms have "fst (fetch_nominatim E q cc w) = Inr (lat, lng)" by simp
  then show ?thesis
    unfolding fetch_nominatim_result by (auto split: response.splits if_splits)
qed

lemma fetch_nominatim_alike:
  assumes "\<forall>n q cc. reply E n q cc = reply E 0 q cc"
  shows "fst (fetch_nominatim E q cc v) = fst (fetch_nominatim E q cc w)"
proof -
  from assms have "reply E (length (requests v)) q cc = reply E (length (requests w)) q cc"
    by metis
  then show ?thesis unfolding fetch_nominatim_result by simp
qed

lemma fallbacks_of_negative_exhausted:
  assumes det: "\<forall>n q cc. reply E n q cc = reply E 0 q cc"
    and "fallbacks_of_negative E q cc c fbs w = (Inr None, w')"
  shows "\<forall>fb \<in> set fbs. \<forall>v. fst (fetch_nominatim E fb cc v) = Inr (JNull, JNull)"
  using assms(2)
proof (induction fbs arbitrary: w)
  case Nil
  then show ?case by simp
next
  case (Cons fb fbs)
  obtain r1 w1 where f: "fetch_nominatim E fb cc w = (r1, w1)" by (cases "fetch_nominatim E fb cc w")
  show ?case
  proof (cases r1)
    case (Inl e)
    with Cons.prems f show ?thesis by simp
  next
    case (Inr p)
    obtain lat lng where p: "p = (lat, lng)" by (cases p)
    from f Inr p have f': "fetch_nominatim E fb cc w = (Inr (lat, lng), w1)" by simp
    have nt: "\<not> (truthy lat \<and> truthy lng)"
    proof
      assume "truthy lat \<and> truthy lng"
      with Cons.prems f' have "float_pair E lat lng = Inr None" by simp
      then show False by (simp add: float_pair_not_None)
    qed
    with fetch_nominatim_pair [OF f'] have "lat = JNull" "lng = JNull" by auto
    with f' have "fst (fetch_nominatim E fb cc w) = Inr (JNull, JNull)" by simp
    with fetch_nominatim_alike [OF det, of fb cc _ w]
    have here: "\<forall>v. fst (fetch_nominatim E fb cc v) = Inr (JNull, JNull)" by simp
    from Cons.prems f' nt have "fallbacks_of_negative E q cc c fbs w1 = (Inr None, w')" by auto
    from Cons.IH [OF this] here show ?thesis by simp
  qed
qed

lemma fallbacks_of_absent_exhausted:
  assumes det: "\<forall>n q cc. reply E n q cc = reply E 0 q cc"
    and "fallbacks_of_absent E q cc fbs w = (Inr None, w')"
  shows "\<forall>fb \<in> set fbs. \<forall>v. fst (fetch_nominatim E fb cc v) = Inr (JNull, JNull)"
  using assms(2)
proof (induction fbs arbitrary: w)
  case Nil
  then show ?case by simp
next
  case (Cons fb fbs)
  obtain r1 w1 where f: "fetch_nominatim E fb cc w = (r1, w1)" by (cases "fetch_nominatim E fb cc w")
  show ?case
  proof (cases r1)
    case (Inl e)
    with Cons.prems f show ?thesis by simp
  next
    case (Inr p)
    obtain lat lng where p: "p = (lat, lng)" by (cases p)
    from f Inr p have f': "fetch_nominatim E fb cc w = (Inr (lat, lng), w1)" by simp
    have nt: "\<not> (truthy lat \<and> truthy lng)"
    proof
      assume "truthy lat \<and> truthy lng"
      with Cons.prems f' have "(case load_put_save q (Resolved lat lng) w1 of
          (Inl e, w2) \<Rightarrow> (Inl e, w2)
        | (Inr _, w2) \<Rightarrow> (float_pair E lat lng, w2)) = (Inr None, w')" by simp
      then have "float_pair E lat lng = Inr None"
        by (auto split: prod.splits sum.splits)
      then show False by (simp add: float_pair_not_None)
    qed
    with fetch_nominatim_pair [OF f'] have "lat = JNull" "lng = JNull" by auto
    with f' have "fst (fetch_nominatim E fb cc w) = Inr (JNull, JNull)" by simp
    with fetch_nominatim_alike [OF det, of fb cc _ w]
    have here: "\<forall>v. fst (fetch_nominatim E fb cc v) = Inr (JNull, JNull)" by simp
    from Cons.prems f' nt have "fallbacks_of_absent E q cc fbs w1 = (Inr None, w')" by auto
    from Cons.IH [OF this] here show ?thesis by simp
  qed
qed

lemma fallbacks_of_negative_nothing:
  assumes "\<forall>fb \<in> set fbs. \<forall>v. fst (fetch_nominatim E fb cc v) = Inr (JNull, JNull)"
  shows "\<exists>w'. fallbacks_of_negative E q cc c fbs w = (Inr None, w') \<and>
           map (fst \<circ> snd) (requests w') = map (fst \<circ> snd) (requests w) @ fbs"
  using assms
proof (induction fbs arbitrary: w)
  case Nil
  then show ?case by simp
next
  case (Cons fb fbs)
  obtain r1 w1 where f: "fetch_nominatim E fb cc w = (r1, w1)" by (cases "fetch_nominatim E fb cc w")
  from Cons.prems have "fst (fetch_nominatim E fb cc w) = Inr (JNull, JNull)" by simp
  with f have "fetch_nominatim E fb cc w = (Inr (JNull, JNull), w1)" by simp
  then have step: "fallbacks_of_negative E q cc c (fb # fbs) w = fallbacks_of_negative E q cc c fbs w1"
    by simp
  from Cons.prems have "\<forall>fb \<in> set fbs. \<forall>v. fst (fetch_nominatim E fb cc v) = Inr (JNull, JNull)"
    by simp
  from Cons.IH [OF this] obtain w' where w': "fallbacks_of_negative E q cc c fbs w1 = (Inr None, w')"
    and m: "map (fst \<circ> snd) (requests w') = map (fst \<circ> snd) (requests w1) @ fbs" by blast
  from fetch_nominatim_fields(2) [OF f]
  have "map (fst \<circ> snd) (requests w1) = map (fst \<circ> snd) (requests w) @ [fb]" by simp
  with m have "map (fst \<circ> snd) (requests w') = map (fst \<circ> snd) (requests w) @ fb # fbs"
    by simp
  moreover from step w' have "fallbacks_of_negative E q cc c (fb # fbs) w = (Inr None, w')"
    by (rule trans)
  ultimately show ?case by blast
qed

text \<open>
  After a call that found nothing and left the negative entry, every fallback candidate is
  one for which the provider has no result, if the provider answers alike each time.
\<close>

lemma geocode_address_exhausted:
  assumes det: "\<forall>n q cc. reply E n q cc = reply E 0 q cc"
    and bq: "build_query E address country_code = Some q0"
    and l: "load_cache w = (Inr c, w0)"
    and g: "geocode_address E address country_code False True w = (Inr None, w1)"
    and n: "stored w1 (correct_query q0) = Some Negative"
  shows "\<forall>fb \<in> set (fallback_queries E (correct_query q0)).
           \<forall>v. fst (fetch_nominatim E fb (str_upper E (or_empty country_code)) v) = Inr (JNull, JNull)"
proof -
  let ?q = "correct_query q0" and ?cc = "str_upper E (or_empty country_code)"
  show ?thesis
  proof (cases "c ?q")
    case None
    obtain r1 wf where f: "fetch_nominatim E ?q ?cc w0 = (r1, wf)"
      by (cases "fetch_nominatim E ?q ?cc w0")
    show ?thesis
    proof (cases r1)
      case (Inl e)
      with geocode_address_fault [OF bq l None, of e wf True] f g show ?thesis by simp
    next
      case (Inr p)
      obtain lat lng where p: "p = (lat, lng)" by (cases p)
      from f Inr p have f': "fetch_nominatim E ?q ?cc w0 = (Inr (lat, lng), wf)" by simp
      have nt: "\<not> (truthy lat \<and> truthy lng)"
      proof
        assume t: "truthy lat \<and> truthy lng"
        with geocode_address_found [OF bq l None f', of True] g
        have "(case load_put_save ?q (Resolved lat lng) wf of
            (Inl e, w3) \<Rightarrow> (Inl e, w3)
          | (Inr _, w3) \<Rightarrow> (float_pair E lat lng, w3)) = (Inr None, w1)" by simp
        then have "float_pair E lat lng = Inr None" by (auto split: prod.splits sum.splits)
        then show False by (simp add: float_pair_not_None)
      qed
      obtain r2 w2 where fb: "(if True
          then fallbacks_of_absent E ?q ?cc (fallback_queries E ?q) wf
          else (Inr None, wf)) = (r2, w2)"
        by (cases "fallbacks_of_absent E ?q ?cc (fallback_queries E ?q) wf") simp
      from geocode_address_not_found [OF bq l None f' nt fb] g
      have "r2 = Inr None" by (auto split: sum.splits option.splits)
      with fb have "fallbacks_of_absent E ?q ?cc (fallback_queries E ?q) wf = (Inr None, w2)" by simp
      from fallbacks_of_absent_exhausted [OF det this] show ?thesis .
    qed
  next
    case (Some en)
    show ?thesis
    proof (cases en)
      case Negative
      with geocode_address_negative [OF bq l, of False True] Some g
      have "fallbacks_of_negative E ?q ?cc c (fallback_queries E ?q) w0 = (Inr None, w1)" by simp
      from fallbacks_of_negative_exhausted [OF det this] show ?thesis .
    next
      case (Resolved lat lng)
      with geocode_address_hit [OF bq l, of lat lng False True] Some g have "w1 = w0" by simp
      with load_cache_stored [OF l] Some Resolved n show ?thesis by simp
    qed
  qed
qed

text \<open>
  Claim C1, as amended. Let a call of \<open>geocode_address\<close> for a valid pair with
  \<open>skip_api\<close> unset return, and let the same call follow it. After the first call the
  cache holds an entry for the query: an object, or the negative entry when the call
  returned no coordinate. If the first call returned a coordinate, or fallbacks are
  disabled, or the entry is an object, the second call returns what the first returned
  and sends no request: it is answered from the cache. If fallbacks are enabled and the
  entry is the negative one, the second call sends requests again: with a provider that
  answers a request alike each time, it asks for every fallback candidate of the query,
  in their order, and returns no coordinate, as the first call did.
\<close>

theorem resolve_twice:
  assumes bq: "build_query E address country_code = Some q0"
    and g1: "geocode_address E address country_code False fallbacks w = (Inr x, w1)"
    and g2: "geocode_address E address country_code False fallbacks w1 = (r2, w2)"
  shows "(is_resolved (stored w1 (correct_query q0)) \<or>
          stored w1 (correct_query q0) = Some Negative \<and> x = None) \<and>
         (x \<noteq> None \<or> \<not> fallbacks \<or> is_resolved (stored w1 (correct_query q0)) \<longrightarrow>
            r2 = Inr x \<and> requests w2 = requests w1) \<and>
         (fallbacks \<and> stored w1 (correct_query q0) = Some Negative \<and>
          (\<forall>n q cc. reply E n q cc = reply E 0 q cc) \<longrightarrow>
            r2 = Inr x \<and>
            map (fst \<circ> snd) (requests w2) =
              map (fst \<circ> snd) (requests w1) @ fallback_queries E (correct_query q0))"
proof -
  let ?q = "correct_query q0" and ?cc = "str_upper E (or_empty country_code)"
  obtain r0 w0 where l0: "load_cache w = (r0, w0)" by (cases "load_cache w")
  have "\<exists>c. r0 = Inr c"
  proof (cases r0)
    case (Inl e)
    with bq l0 g1 show ?thesis by (simp add: geocode_address_def Let_def)
  qed simp
  then obtain c where l: "load_cache w = (Inr c, w0)" using l0 by blast
  from geocode_address_outcome [OF bq l g1]
  have s1: "settled (stored w1) w1"
    and o: "(stored w1 = c \<and>
       ((\<exists>e. Inr x = (Inl e :: error + (real \<times> real) option)) \<or>
        (\<exists>lat lng. c ?q = Some (Resolved lat lng) \<and> w1 = w0 \<and>
           Inr x = (if truthy lat \<and> truthy lng then float_pair E lat lng else Inr None)) \<or>
        (c ?q = Some Negative \<and> Inr x = (Inr None :: error + (real \<times> real) option)) \<or>
        (c ?q = None \<and> False \<and> w1 = w0 \<and> Inr x = (Inr None :: error + (real \<times> real) option)))) \<or>
     (\<exists>lat lng. truthy lat \<and> truthy lng \<and> Inr x = float_pair E lat lng \<and>
        stored w1 = c(?q \<mapsto> Resolved lat lng) \<and> \<not> False \<and>
        (c ?q = None \<or> c ?q = Some Negative \<and> fallbacks)) \<or>
     (Inr x = (Inr None :: error + (real \<times> real) option) \<and> stored w1 = c(?q \<mapsto> Negative) \<and>
        c ?q = None \<and> \<not> False)"
    by blast+
  from s1 have l1: "load_cache w1 = (Inr (stored w1), w1)" by (simp add: settled_def)
  have "(\<exists>lat lng. stored w1 ?q = Some (Resolved lat lng) \<and>
           Inr x = (if truthy lat \<and> truthy lng then float_pair E lat lng else Inr None)) \<or>
        (stored w1 ?q = Some Negative \<and> x = None)"
    using o by (elim disjE conjE exE) force+
  then consider
      (resolved) lat lng where "stored w1 ?q = Some (Resolved lat lng)"
        "Inr x = (if truthy lat \<and> truthy lng then float_pair E lat lng else Inr None)"
    | (negative) "stored w1 ?q = Some Negative" "x = None"
    by blast
  then show ?thesis
  proof cases
    case resolved
    from geocode_address_hit [OF bq l1 resolved(1), of False fallbacks] g2 resolved(2)
    have "r2 = Inr x" "requests w2 = requests w1" by simp_all
    with resolved(1) show ?thesis by (simp add: is_resolved_def)
  next
    case negative
    note neg = geocode_address_negative [OF bq l1 negative(1), of False fallbacks]
    from negative(1) have nr: "\<not> is_resolved (stored w1 ?q)" by (simp add: is_resolved_def)
    show ?thesis
    proof (cases fallbacks)
      case False
      with neg g2 negative nr show ?thesis by simp
    next
      case True
      have "(\<forall>n q cc. reply E n q cc = reply E 0 q cc) \<longrightarrow>
          r2 = Inr x \<and>
          map (fst \<circ> snd) (requests w2) = map (fst \<circ> snd) (requests w1) @ fallback_queries E ?q"
      proof
        assume det: "\<forall>n q cc. reply E n q cc = reply E 0 q cc"
        from g1 True negative have "geocode_address E address country_code False True w = (Inr None, w1)"
          by simp
        from geocode_address_exhausted [OF det bq l this negative(1)]
        have "\<forall>fb \<in> set (fallback_queries E ?q). \<forall>v. fst (fetch_nominatim E fb ?cc v) = Inr (JNull, JNull)" .
        from fallbacks_of_negative_nothing [OF this]
        obtain w' where "fallbacks_of_negative E ?q ?cc (stored w1) (fallback_queries E ?q) w1 = (Inr None, w')"
          and "map (fst \<circ> snd) (requests w') = map (fst \<circ> snd) (requests w1) @ fallback_queries E ?q"
          by blast
        with neg g2 True negative
        show "r2 = Inr x \<and>
          map (fst \<circ> snd) (requests w2) = map (fst \<circ> snd) (requests w1) @ fallback_queries E ?q"
          by simp
      qed
      with True negative nr show ?thesis by simp
    qed
  qed
qed

theorem resolve_twice_witness:
  "fst (geocode_address split_env (Some (str ''Split'')) (Some (str ''HR'')) False True world0) =
     Inr (Some (87 / 2, 33 / 2)) \<and>
   fst (geocode_address split_env (Some (str ''Split'')) (Some (str ''HR'')) False True
     (snd (geocode_address split_env (Some (str ''Split'')) (Some (str ''HR'')) False True world0))) =
     Inr (Some (87 / 2, 33 / 2)) \<and>
   requests (snd (geocode_address split_env (Some (str ''Split'')) (Some (str ''HR'')) False True
     (snd (geocode_address split_env (Some (str ''Split'')) (Some (str ''HR'')) False True world0)))) =
     [(1000, str ''Split, Croatia'', str ''HR'')] \<and>
   fst (geocode_address ascii_env (Some (str ''Ulica 5, Split'')) (Some (str ''HR'')) False True world0) =
     Inr None \<and>
   fst (geocode_address ascii_env (Some (str ''Ulica 5, Split'')) (Some (str ''HR'')) False True
     (snd (geocode_address ascii_env (Some (str ''Ulica 5, Split'')) (Some (str ''HR'')) False True
        world0))) = Inr None \<and>
   map (fst \<circ> snd) (requests (snd (geocode_address ascii_env (Some (str ''Ulica 5, Split''))
     (Some (str ''HR'')) False True
     (snd (geocode_address ascii_env (Some (str ''Ulica 5, Split'')) (Some (str ''HR'')) False True
        world0))))) =
   map (fst \<circ> snd) (requests (snd (geocode_address ascii_env (Some (str ''Ulica 5, Split''))
     (Some (str ''HR'')) False True world0))) @
   [str ''Split, Croatia'', str ''Ulica, Split, Croatia'']"
proof -
  let ?hr = "Some (str ''HR'')"
  let ?w1 = "world0\<lparr>cache_file := Some (Json [str ''Split, Croatia'' \<mapsto>
        Resolved (JStr (str ''43.5'')) (JStr (str ''16.5''))]),
      last_request_time := 1000,
      requests := [(1000, str ''Split, Croatia'', str ''HR'')]\<rparr>"
  have bq: "build_query split_env (Some (str ''Split'')) ?hr = Some (str ''Split, Croatia'')"
    by (simp add: build_query_def split_env_def ascii_env_def COUNTRY_NAMES_def string_simps)
  have g1: "geocode_address split_env (Some (str ''Split'')) ?hr False True world0 =
      (Inr (Some (87 / 2, 33 / 2)), ?w1)"
    by (simp add: engine_simps split_env_def table_simps string_simps)
  obtain r2 w2 where g2: "geocode_address split_env (Some (str ''Split'')) ?hr False True ?w1 =
      (r2, w2)"
    by (cases "geocode_address split_env (Some (str ''Split'')) ?hr False True ?w1")
  from resolve_twice [OF bq g1 g2]
  have "r2 = Inr (Some (87 / 2, 33 / 2))" and "requests w2 = requests ?w1" by simp_all
  with g1 g2 have first: "fst (geocode_address split_env (Some (str ''Split'')) ?hr False True world0) =
       Inr (Some (87 / 2, 33 / 2)) \<and>
     fst (geocode_address split_env (Some (str ''Split'')) ?hr False True
       (snd (geocode_address split_env (Some (str ''Split'')) ?hr False True world0))) =
       Inr (Some (87 / 2, 33 / 2)) \<and>
     requests (snd (geocode_address split_env (Some (str ''Split'')) ?hr False True
       (snd (geocode_address split_env (Some (str ''Split'')) ?hr False True world0)))) =
       [(1000, str ''Split, Croatia'', str ''HR'')]"
    by (simp add: world0_def)
  let ?u = "Some (str ''Ulica 5, Split'')"
  let ?q = "str ''Ulica 5, Split, Croatia''"
  have bu: "build_query ascii_env ?u ?hr = Some ?q"
    by (simp add: build_query_def ascii_env_def COUNTRY_NAMES_def string_simps)
  have cq: "correct_query ?q = ?q" by (simp add: table_simps str_def)
  have fq: "fallback_queries ascii_env ?q = [str ''Split, Croatia'', str ''Ulica, Split, Croatia'']"
    by (simp add: fallback_queries_def street_no_match_def ascii_env_def string_simps)
  obtain v1 where h1: "geocode_address ascii_env ?u ?hr False True world0 = (Inr None, v1)"
    and n1: "stored v1 ?q = Some Negative"
    by (simp add: engine_simps table_simps string_simps stored_def)
  obtain s2 v2 where h2: "geocode_address ascii_env ?u ?hr False True v1 = (s2, v2)"
    by (cases "geocode_address ascii_env ?u ?hr False True v1")
  have det: "\<forall>n q cc. reply ascii_env n q cc = reply ascii_env 0 q cc"
    by (simp add: ascii_env_def)
  from resolve_twice [OF bu h1 h2] n1 det
  have "s2 = Inr None"
    and "map (fst \<circ> snd) (requests v2) = map (fst \<circ> snd) (requests v1) @ fallback_queries ascii_env ?q"
    unfolding cq by simp_all
  with h1 h2 have second:
    "fst (geocode_address ascii_env ?u ?hr False True world0) = Inr None \<and>
     fst (geocode_address ascii_env ?u ?hr False True
       (snd (geocode_address ascii_env ?u ?hr False True world0))) = Inr None \<and>
     map (fst \<circ> snd) (requests (snd (geocode_address ascii_env ?u ?hr False True
       (snd (geocode_address ascii_env ?u ?hr False True world0))))) =
     map (fst \<circ> snd) (requests (snd (geocode_address ascii_env ?u ?hr False True world0))) @
     [str ''Split, Croatia'', str ''Ulica, Split, Croatia'']"
    unfolding fq by simp
  from first second show ?thesis by simp
qed

text \<open>
  Claim C1 as stated fails. With nothing cached and a provider that finds nothing, the
  first call for \<open>Ulica 5, Split\<close> sends three requests and returns no coordinate; the
  second call finds the negative entry and sends the two fallback candidates again.
\<close>

theorem resolve_twice_counterexample:
  "fst (geocode_address ascii_env (Some (str ''Ulica 5, Split'')) (Some (str ''HR'')) False True world0) =
     Inr None \<and>
   map (fst \<circ> snd) (requests (snd (geocode_address ascii_env (Some (str ''Ulica 5, Split''))
     (Some (str ''HR'')) False True world0))) =
     [str ''Ulica 5, Split, Croatia'', str ''Split, Croatia'', str ''Ulica, Split, Croatia''] \<and>
   map (fst \<circ> snd) (requests (snd (geocode_address ascii_env (Some (str ''Ulica 5, Split''))
     (Some (str ''HR'')) False True
     (snd (geocode_address ascii_env (Some (str ''Ulica 5, Split'')) (Some (str ''HR'')) False True
        world0))))) =
     [str ''Ulica 5, Split, Croatia'', str ''Split, Croatia'', str ''Ulica, Split, Croatia'',
      str ''Split, Croatia'', str ''Ulica, Split, Croatia'']"
  by (simp add: engine_simps table_simps string_simps)


text \<open>
  Claim C10. If the loaded cache holds an object for the canonical query whose \<open>lat\<close> or
  \<open>lng\<close> is falsy, \<open>geocode_address\<close> returns no coordinate and the state in which the
  load left the world: no request is sent, for the query or for a fallback candidate.
\<close>

theorem falsy_resolved_entry:
  assumes "build_query E address country_code = Some q0"
    and "load_cache w = (Inr cache, w1)"
    and "cache (correct_query q0) = Some (Resolved lat lng)"
    and "\<not> truthy lat \<or> \<not> truthy lng"
  shows "geocode_address E address country_code skip_api fallbacks w = (Inr None, w1) \<and>
         requests w1 = requests w"
proof -
  from assms have "geocode_address E address country_code skip_api fallbacks w = (Inr None, w1)"
    by (auto simp: geocode_address_def)
  moreover from load_cache_frame [OF assms(2)] have "requests w1 = requests w" by simp
  ultimately show ?thesis by simp
qed

theorem falsy_resolved_entry_witness:
  "geocode_address ascii_env (Some (str ''Split'')) (Some (str ''HR'')) False True
     (world0\<lparr>cache_file := Some (Json [str ''Split, Croatia'' \<mapsto> Resolved (JNum 0) (JStr (str ''16.5''))])\<rparr>) =
   (Inr None,
    world0\<lparr>cache_file := Some (Json [str ''Split, Croatia'' \<mapsto> Resolved (JNum 0) (JStr (str ''16.5''))])\<rparr>)"
proof -
  let ?d = "[str ''Split, Croatia'' \<mapsto> Resolved (JNum 0) (JStr (str ''16.5''))]"
  let ?w = "world0\<lparr>cache_file := Some (Json ?d)\<rparr>"
  have q: "build_query ascii_env (Some (str ''Split'')) (Some (str ''HR'')) = Some (str ''Split, Croatia'')"
    by (simp add: build_query_def ascii_env_def COUNTRY_NAMES_def string_simps)
  have c: "correct_query (str ''Split, Croatia'') = str ''Split, Croatia''"
    by (simp add: table_simps str_def)
  have f: "cache_file ?w = Some (Json ?d)" by simp
  have absent: "\<not> (\<exists>k \<in> set KEYS_TO_PURGE_FROM_CACHE. ?d k \<noteq> None)"
    by (simp add: table_simps str_def)
  then have "purged ?d = ?d" by (intro purged_id) blast
  with load_cache_Json [OF f] absent have l: "load_cache ?w = (Inr ?d, ?w)" by simp
  have e: "?d (correct_query (str ''Split, Croatia'')) = Some (Resolved (JNum 0) (JStr (str ''16.5'')))"
    unfolding c by simp
  have "\<not> truthy (JNum 0) \<or> \<not> truthy (JStr (str ''16.5''))" by simp
  from falsy_resolved_entry [OF q l e this] show ?thesis by simp
qed

section \<open>How the cache entries change\<close>

lemma evolved_refl: "evolved e e"
  by (simp add: evolved_def)

lemma evolved_trans: "evolved e e' \<Longrightarrow> evolved e' e'' \<Longrightarrow> evolved e e''"
  by (auto simp: evolved_def solid_def is_resolved_def split: option.splits entry.splits)

lemma correct_query_id: "k \<notin> set KEYS_TO_PURGE_FROM_CACHE \<Longrightarrow> correct_query k = k"
  by (simp add: correct_query_def KEYS_TO_PURGE_FROM_CACHE_def map_of_eq_None_iff [THEN iffD2])

lemma load_cache_entry:
  assumes "load_cache w = (r, w')" and "k \<notin> set KEYS_TO_PURGE_FROM_CACHE"
  shows "stored w' k = stored w k \<or> stored w k = None"
proof (cases r)
  case (Inl e)
  with assms load_cache_error show ?thesis by blast
next
  case (Inr c)
  with assms have l: "load_cache w = (Inr c, w')" by simp
  show ?thesis
  proof (cases "cache_file w")
    case None
    then show ?thesis by (simp add: stored_def)
  next
    case (Some f)
    with load_cache_keeps [OF l _ assms(2)] load_cache_stored [OF l] show ?thesis by simp
  qed
qed

lemma load_put_save_entry:
  assumes "load_put_save key e w = (r, w')" and "k \<notin> set KEYS_TO_PURGE_FROM_CACHE"
  shows "stored w' k = stored w k \<or> stored w k = None \<or> (k = key \<and> stored w' k = Some e)"
proof -
  obtain r0 w0 where l: "load_cache w = (r0, w0)" by (cases "load_cache w")
  note le = load_cache_entry [OF l assms(2)]
  show ?thesis
  proof (cases r0)
    case (Inl err)
    with assms(1) l have "w' = w0" by (simp add: load_put_save_def)
    with le show ?thesis by auto
  next
    case (Inr c)
    with assms(1) l have w': "w' = save_cache (c(key \<mapsto> e)) w0" by (simp add: load_put_save_def)
    from l Inr have "stored w0 = c" using load_cache_stored by blast
    with w' have "stored w' = (stored w0)(key \<mapsto> e)" by (simp add: stored_def save_cache_def)
    with le show ?thesis by auto
  qed
qed

lemma geocode_address_entry:
  assumes g: "geocode_address E address country_code skip_api fallbacks w = (r, w')"
    and k: "k \<notin> set KEYS_TO_PURGE_FROM_CACHE"
  shows "stored w' k = stored w k \<or> stored w k = None \<or>
         (stored w k = Some Negative \<and> fallbacks \<and> is_resolved (stored w' k))"
proof (cases "build_query E address country_code")
  case None
  with g show ?thesis by (simp add: geocode_address_def)
next
  case (Some q0)
  note bq = Some
  obtain r0 w0 where l0: "load_cache w = (r0, w0)" by (cases "load_cache w")
  note le = load_cache_entry [OF l0 k]
  show ?thesis
  proof (cases r0)
    case (Inl e)
    with bq l0 g have "w' = w0" by (simp add: geocode_address_def Let_def)
    with le show ?thesis by auto
  next
    case (Inr c)
    with l0 have l: "load_cache w = (Inr c, w0)" by simp
    from load_cache_stored [OF l] have c: "stored w0 = c" .
    from geocode_address_outcome [OF bq l g]
    have "stored w' = c \<or>
      (\<exists>lat lng. stored w' = c(correct_query q0 \<mapsto> Resolved lat lng) \<and>
         (c (correct_query q0) = None \<or> c (correct_query q0) = Some Negative \<and> fallbacks)) \<or>
      (stored w' = c(correct_query q0 \<mapsto> Negative) \<and> c (correct_query q0) = None)"
      by blast
    then show ?thesis
    proof (elim disjE exE conjE)
      assume "stored w' = c"
      with c le show ?thesis by auto
    next
      fix lat lng
      assume "stored w' = c(correct_query q0 \<mapsto> Resolved lat lng)" "c (correct_query q0) = None"
      with c le show ?thesis by (cases "k = correct_query q0") auto
    next
      fix lat lng
      assume "stored w' = c(correct_query q0 \<mapsto> Resolved lat lng)"
        "c (correct_query q0) = Some Negative" "fallbacks"
      with c le show ?thesis by (cases "k = correct_query q0") (auto simp: is_resolved_def)
    next
      assume "stored w' = c(correct_query q0 \<mapsto> Negative)" "c (correct_query q0) = None"
      with c le show ?thesis by (cases "k = correct_query q0") auto
    qed
  qed
qed

lemma geocode_address_evolved:
  assumes "geocode_address E address country_code skip_api fallbacks w = (r, w')"
    and "k \<notin> set KEYS_TO_PURGE_FROM_CACHE"
  shows "evolved (stored w k) (stored w' k)"
  using geocode_address_entry [OF assms]
  by (auto simp: evolved_def solid_def)

text \<open>
  After a call that was not skipped and returned, the query has an entry: the coordinate
  the call returned, or an entry without a usable coordinate if it returned none.
\<close>

lemma geocode_address_leaves_entry:
  assumes bq: "build_query E address country_code = Some q0"
    and g: "geocode_address E address country_code False fallbacks w = (Inr x, w')"
  shows "stored w' (correct_query q0) \<noteq> None \<and>
         (x \<noteq> None \<longleftrightarrow> solid (stored w' (correct_query q0)))"
proof -
  let ?q = "correct_query q0"
  obtain r0 w0 where l0: "load_cache w = (r0, w0)" by (cases "load_cache w")
  have "\<exists>c. r0 = Inr c"
  proof (cases r0)
    case (Inl e)
    with bq l0 g show ?thesis by (simp add: geocode_address_def Let_def)
  qed simp
  then obtain c where l: "load_cache w = (Inr c, w0)" using l0 by blast
  from geocode_address_outcome [OF bq l g]
  have o: "(stored w' = c \<and>
       ((\<exists>e. Inr x = (Inl e :: error + (real \<times> real) option)) \<or>
        (\<exists>lat lng. c ?q = Some (Resolved lat lng) \<and> w' = w0 \<and>
           Inr x = (if truthy lat \<and> truthy lng then float_pair E lat lng else Inr None)) \<or>
        (c ?q = Some Negative \<and> Inr x = (Inr None :: error + (real \<times> real) option)) \<or>
        (c ?q = None \<and> False \<and> w' = w0 \<and> Inr x = (Inr None :: error + (real \<times> real) option)))) \<or>
     (\<exists>lat lng. truthy lat \<and> truthy lng \<and> Inr x = float_pair E lat lng \<and>
        stored w' = c(?q \<mapsto> Resolved lat lng) \<and> \<not> False \<and>
        (c ?q = None \<or> c ?q = Some Negative \<and> fallbacks)) \<or>
     (Inr x = (Inr None :: error + (real \<times> real) option) \<and> stored w' = c(?q \<mapsto> Negative) \<and>
        c ?q = None \<and> \<not> False)"
    by blast
  have fp: "\<And>lat lng. Inr x = float_pair E lat lng \<Longrightarrow> x \<noteq> None"
    using float_pair_not_None by metis
  from o show ?thesis
    by (elim disjE conjE exE) (auto simp: solid_def dest: fp split: if_splits)
qed

lemma event_fallback_loop_evolved:
  assumes "event_fallback_loop E country_code orig_key fbs w = (r, w')"
    and "\<forall>key. orig_key = Some key \<longrightarrow>
           key \<in> set KEYS_TO_PURGE_FROM_CACHE \<or> (stored w key \<noteq> None \<and> \<not> solid (stored w key))"
    and "k \<notin> set KEYS_TO_PURGE_FROM_CACHE"
  shows "evolved (stored w k) (stored w' k)"
  using assms(1,2)
proof (induction fbs arbitrary: w)
  case Nil
  then show ?case by (simp add: evolved_refl)
next
  case (Cons fb fbs)
  note k = assms(3)
  let ?key = "build_query E (Some fb) country_code"
  show ?case
  proof (cases "?key = None \<or> ?key = orig_key")
    case True
    with Cons.prems(1) have "event_fallback_loop E country_code orig_key fbs w = (r, w')"
      by (auto simp: Let_def)
    from Cons.IH [OF this Cons.prems(2)] show ?thesis .
  next
    case False
    obtain r1 w1 where g: "geocode_address E (Some fb) country_code False False w = (r1, w1)"
      by (cases "geocode_address E (Some fb) country_code False False w")
    have step: "evolved (stored w k) (stored w1 k)" by (rule geocode_address_evolved [OF g k])
    have inv: "\<forall>key. orig_key = Some key \<longrightarrow>
        key \<in> set KEYS_TO_PURGE_FROM_CACHE \<or> (stored w1 key \<noteq> None \<and> \<not> solid (stored w1 key))"
    proof (intro allI impI)
      fix key
      assume ok: "orig_key = Some key"
      show "key \<in> set KEYS_TO_PURGE_FROM_CACHE \<or> (stored w1 key \<noteq> None \<and> \<not> solid (stored w1 key))"
      proof (cases "key \<in> set KEYS_TO_PURGE_FROM_CACHE")
        case True
        then show ?thesis by simp
      next
        case nk: False
        with Cons.prems(2) ok have "stored w key \<noteq> None \<and> \<not> solid (stored w key)" by simp
        with geocode_address_entry [OF g nk] show ?thesis by auto
      qed
    qed
    show ?thesis
    proof (cases r1)
      case (Inl e)
      with Cons.prems(1) False g have "w' = w1" by (auto simp: Let_def)
      with step show ?thesis by simp
    next
      case (Inr c)
      show ?thesis
      proof (cases c)
        case None
        with Cons.prems(1) False g Inr
        have "event_fallback_loop E country_code orig_key fbs w1 = (r, w')"
          by (auto simp: Let_def)
        from evolved_trans [OF step Cons.IH [OF this inv]] show ?thesis .
      next
        case (Some xy)
        obtain lat lng where xy: "xy = (lat, lng)" by (cases xy)
        show ?thesis
        proof (cases orig_key)
          case None
          with Cons.prems(1) False g Inr Some xy have "w' = w1" by (auto simp: Let_def)
          with step show ?thesis by simp
        next
          case (Some key)
          obtain r2 w2 where lp: "load_put_save key (Resolved (JNum lat) (JNum lng)) w1 = (r2, w2)"
            by (cases "load_put_save key (Resolved (JNum lat) (JNum lng)) w1")
          with Cons.prems(1) False g Inr \<open>c = Some xy\<close> xy Some have w': "w' = w2"
            by (auto simp: Let_def split: sum.splits)
          from load_put_save_entry [OF lp k]
          have "evolved (stored w1 k) (stored w2 k)"
          proof (elim disjE conjE)
            assume "k = key" "stored w2 k = Some (Resolved (JNum lat) (JNum lng))"
            with inv Some k show ?thesis by (auto simp: evolved_def is_resolved_def)
          qed (simp_all add: evolved_def)
          with evolved_trans [OF step] w' show ?thesis by simp
        qed
      qed
    qed
  qed
qed

lemma geocode_event_location_evolved:
  assumes g: "geocode_event_location E location country_code skip_api w = (r, w')"
    and k: "k \<notin> set KEYS_TO_PURGE_FROM_CACHE"
  shows "evolved (stored w k) (stored w' k)"
proof -
  let ?addr = "if or_empty location \<noteq> [] then normalize_location (or_empty location) else []"
  show ?thesis
  proof (cases "?addr = []")
    case True
    with g have "w' = w" by (simp add: geocode_event_location_def Let_def)
    then show ?thesis by (simp add: evolved_refl)
  next
    case False
    obtain r1 w1 where g1: "geocode_address E (Some ?addr) country_code skip_api True w = (r1, w1)"
      by (cases "geocode_address E (Some ?addr) country_code skip_api True w")
    note step = geocode_address_evolved [OF g1 k]
    from g False g1 have g': "(case (r1, w1) of
          (Inl e, w1) \<Rightarrow> (Inl e, w1)
        | (Inr (Some c), w1) \<Rightarrow> (Inr (Some c), w1)
        | (Inr None, w1) \<Rightarrow>
            if skip_api then (Inr None, w1)
            else event_fallback_loop E country_code (build_query E (Some ?addr) country_code)
                   (event_location_fallbacks E ?addr country_code) w1) = (r, w')"
      by (simp add: geocode_event_location_def Let_def)
    show ?thesis
    proof (cases "r1 = Inr None \<and> \<not> skip_api")
      case False
      with g' have "w' = w1" by (auto split: sum.splits option.splits if_splits)
      with step show ?thesis by simp
    next
      case True
      with g' have loop: "event_fallback_loop E country_code (build_query E (Some ?addr) country_code)
          (event_location_fallbacks E ?addr country_code) w1 = (r, w')" by simp
      from True g1 have g1': "geocode_address E (Some ?addr) country_code False True w = (Inr None, w1)"
        by simp
      have inv: "\<forall>key. build_query E (Some ?addr) country_code = Some key \<longrightarrow>
          key \<in> set KEYS_TO_PURGE_FROM_CACHE \<or> (stored w1 key \<noteq> None \<and> \<not> solid (stored w1 key))"
      proof (intro allI impI)
        fix key
        assume bq: "build_query E (Some ?addr) country_code = Some key"
        show "key \<in> set KEYS_TO_PURGE_FROM_CACHE \<or> (stored w1 key \<noteq> None \<and> \<not> solid (stored w1 key))"
        proof (cases "key \<in> set KEYS_TO_PURGE_FROM_CACHE")
          case True
          then show ?thesis by simp
        next
          case False
          with geocode_address_leaves_entry [OF bq g1'] correct_query_id [OF False]
          show ?thesis by simp
        qed
      qed
      from evolved_trans [OF step event_fallback_loop_evolved [OF loop inv k]] show ?thesis .
    qed
  qed
qed

lemma perform_evolved:
  "perform E x w = (r, w') \<Longrightarrow> k \<notin> set KEYS_TO_PURGE_FROM_CACHE \<Longrightarrow>
   evolved (stored w k) (stored w' k)"
  by (cases x) (auto intro: geocode_address_evolved geocode_event_location_evolved)

lemma run_evolved:
  assumes "k \<notin> set KEYS_TO_PURGE_FROM_CACHE"
  shows "evolved (stored w k) (stored (run E ops w) k)"
proof (induction ops arbitrary: w)
  case Nil
  show ?case by (simp add: evolved_refl)
next
  case (Cons x xs)
  obtain r w1 where p: "perform E x w = (r, w1)" by (cases "perform E x w")
  note step = perform_evolved [OF p assms]
  show ?case
  proof (cases r)
    case (Inl e)
    with p step show ?thesis by simp
  next
    case (Inr c)
    with p have "run E (x # xs) w = run E xs w1" by simp
    with evolved_trans [OF step Cons.IH [of w1]] show ?thesis by simp
  qed
qed

text \<open>
  Claim C8, as amended. Across every sequence of resolve and venue-resolve operations,
  the entry that the cache file holds for a key outside the correction table changes only
  in these ways: it is created where there was none, or an entry without a usable
  coordinate (the negative entry, or an object with a falsy \<open>lat\<close> or \<open>lng\<close>) is
  replaced by an object. An object with a truthy \<open>lat\<close> and \<open>lng\<close> is never overwritten
  or removed. The entries are those of the cache file, so every change is one of the
  file; and when a resolve with \<open>skip_api\<close> unset returns, the file holds an entry for
  the query, with a usable coordinate exactly when the call returned one. The keys of the
  correction table are outside this statement: every load removes them.
\<close>

theorem cache_entries_evolve:
  "(\<forall>k. k \<notin> set KEYS_TO_PURGE_FROM_CACHE \<longrightarrow> evolved (stored w k) (stored (run E ops w) k)) \<and>
   (\<forall>k. k \<notin> set KEYS_TO_PURGE_FROM_CACHE \<and> solid (stored w k) \<longrightarrow>
        stored (run E ops w) k = stored w k) \<and>
   (\<forall>q0 x w'. build_query E address country_code = Some q0 \<and>
        geocode_address E address country_code False fallbacks w = (Inr x, w') \<longrightarrow>
        stored w' (correct_query q0) \<noteq> None \<and>
        (x \<noteq> None \<longleftrightarrow> solid (stored w' (correct_query q0))))"
proof (intro conjI allI impI)
  fix k
  assume "k \<notin> set KEYS_TO_PURGE_FROM_CACHE"
  then show "evolved (stored w k) (stored (run E ops w) k)" by (rule run_evolved)
next
  fix k
  assume a: "k \<notin> set KEYS_TO_PURGE_FROM_CACHE \<and> solid (stored w k)"
  then have "evolved (stored w k) (stored (run E ops w) k)" by (simp add: run_evolved)
  with a show "stored (run E ops w) k = stored w k"
    by (auto simp: evolved_def solid_def)
next
  fix q0 x w'
  assume a: "build_query E address country_code = Some q0 \<and>
    geocode_address E address country_code False fallbacks w = (Inr x, w')"
  then have bq: "build_query E address country_code = Some q0"
    and g: "geocode_address E address country_code False fallbacks w = (Inr x, w')" by simp_all
  from geocode_address_leaves_entry [OF bq g]
  show "stored w' (correct_query q0) \<noteq> None" "(x \<noteq> None) = solid (stored w' (correct_query q0))"
    by simp_all
qed

lemmas venue_simps =
  geocode_event_location_def normalize_location_def venue_env_def split_env_def stored_def

theorem cache_entries_evolve_witness:
  "stored (run venue_env [VenueResolve (Some (str ''Stadion'')) (Some (str ''HR'')) False]
     (world0\<lparr>cache_file := Some (Json
        [str ''Zadar, Croatia'' \<mapsto> Resolved (JStr (str ''44.1'')) (JStr (str ''15.2'')),
         str ''Stadion, Croatia'' \<mapsto> Negative])\<rparr>)) (str ''Zadar, Croatia'') =
     Some (Resolved (JStr (str ''44.1'')) (JStr (str ''15.2''))) \<and>
   stored (run venue_env [VenueResolve (Some (str ''Stadion'')) (Some (str ''HR'')) False]
     (world0\<lparr>cache_file := Some (Json
        [str ''Zadar, Croatia'' \<mapsto> Resolved (JStr (str ''44.1'')) (JStr (str ''15.2'')),
         str ''Stadion, Croatia'' \<mapsto> Negative])\<rparr>)) (str ''Stadion, Croatia'') =
     Some (Resolved (JNum (87 / 2)) (JNum (33 / 2))) \<and>
   evolved (Some Negative) (Some (Resolved (JNum (87 / 2)) (JNum (33 / 2)))) \<and>
   geocode_address venue_env (Some (str ''Stadion'')) (Some (str ''HR'')) False True
     (world0\<lparr>cache_file := Some (Json
        [str ''Zadar, Croatia'' \<mapsto> Resolved (JStr (str ''44.1'')) (JStr (str ''15.2'')),
         str ''Stadion, Croatia'' \<mapsto> Negative])\<rparr>) =
     (Inr None, world0\<lparr>cache_file := Some (Json
        [str ''Zadar, Croatia'' \<mapsto> Resolved (JStr (str ''44.1'')) (JStr (str ''15.2'')),
         str ''Stadion, Croatia'' \<mapsto> Negative])\<rparr>)"
proof -
  let ?d = "[str ''Zadar, Croatia'' \<mapsto> Resolved (JStr (str ''44.1'')) (JStr (str ''15.2'')),
         str ''Stadion, Croatia'' \<mapsto> Negative]"
  let ?w = "world0\<lparr>cache_file := Some (Json ?d)\<rparr>"
  let ?ops = "[VenueResolve (Some (str ''Stadion'')) (Some (str ''HR'')) False]"
  have zk: "str ''Zadar, Croatia'' \<notin> set KEYS_TO_PURGE_FROM_CACHE"
    and sk: "str ''Stadion, Croatia'' \<notin> set KEYS_TO_PURGE_FROM_CACHE"
    by (simp_all add: table_simps str_def)
  have z: "stored ?w (str ''Zadar, Croatia'') = Some (Resolved (JStr (str ''44.1'')) (JStr (str ''15.2'')))"
    and s: "stored ?w (str ''Stadion, Croatia'') = Some Negative"
    by (simp_all add: stored_def str_def)
  have sol: "solid (stored ?w (str ''Zadar, Croatia''))"
    unfolding z by (simp add: solid_def str_def)
  have bq: "build_query venue_env (Some (str ''Stadion'')) (Some (str ''HR'')) = Some (str ''Stadion, Croatia'')"
    by (simp add: build_query_def venue_env_def split_env_def ascii_env_def COUNTRY_NAMES_def string_simps)
  have g: "geocode_address venue_env (Some (str ''Stadion'')) (Some (str ''HR'')) False True ?w =
      (Inr None, ?w)"
    by (simp add: engine_simps venue_simps table_simps string_simps)
  have r: "stored (run venue_env ?ops ?w) (str ''Stadion, Croatia'') =
      Some (Resolved (JNum (87 / 2)) (JNum (33 / 2)))"
    by (simp add: engine_simps venue_simps table_simps string_simps)
  from cache_entries_evolve [of ?w venue_env ?ops "Some (str ''Stadion'')" "Some (str ''HR'')" True]
    zk sk sol bq g
  have "stored (run venue_env ?ops ?w) (str ''Zadar, Croatia'') = stored ?w (str ''Zadar, Croatia'')"
    and "evolved (stored ?w (str ''Stadion, Croatia'')) (stored (run venue_env ?ops ?w) (str ''Stadion, Croatia''))"
    by blast+
  with z s r g show ?thesis by simp
qed

text \<open>
  Claim C8 as stated fails, in two ways. A resolve removes an object stored under a key of
  the correction table, even when \<open>skip_api\<close> is set and the call is for another
  address, because the load purges the key. And a venue-resolve overwrites an object
  whose \<open>lat\<close> and \<open>lng\<close> are \<open>0\<close> with the coordinate found for a venue candidate.
\<close>

theorem cache_entries_counterexample:
  "stored (world0\<lparr>cache_file := Some (Json
      [str ''Velika dvorana, Croatia'' \<mapsto> Resolved (JStr (str ''43.5'')) (JStr (str ''16.5''))])\<rparr>)
     (str ''Velika dvorana, Croatia'') =
     Some (Resolved (JStr (str ''43.5'')) (JStr (str ''16.5''))) \<and>
   stored (run ascii_env [Resolve (Some (str ''Split'')) (Some (str ''HR'')) True True]
     (world0\<lparr>cache_file := Some (Json
      [str ''Velika dvorana, Croatia'' \<mapsto> Resolved (JStr (str ''43.5'')) (JStr (str ''16.5''))])\<rparr>))
     (str ''Velika dvorana, Croatia'') = None \<and>
   stored (world0\<lparr>cache_file := Some (Json
      [str ''Stadion, Croatia'' \<mapsto> Resolved (JNum 0) (JNum 0)])\<rparr>)
     (str ''Stadion, Croatia'') = Some (Resolved (JNum 0) (JNum 0)) \<and>
   stored (run venue_env [VenueResolve (Some (str ''Stadion'')) (Some (str ''HR'')) False]
     (world0\<lparr>cache_file := Some (Json
      [str ''Stadion, Croatia'' \<mapsto> Resolved (JNum 0) (JNum 0)])\<rparr>))
     (str ''Stadion, Croatia'') = Some (Resolved (JNum (87 / 2)) (JNum (33 / 2)))"
  by (simp add: engine_simps venue_simps table_simps string_simps)

section \<open>Rate limit\<close>

subsection \<open>Rounding to a double\<close>






text \<open>
  The rate limit is a double of the binade of 1, a multiple of \<open>2 ^ (- 52)\<close>, and no
  other such multiple is nearer to \<open>11 / 10\<close>.
\<close>

lemma RATE_LIMIT_SEC_literal:
  "RATE_LIMIT_SEC * 2 ^ 52 = 4953959590107546 \<and> \<bar>RATE_LIMIT_SEC - 11 / 10\<bar> < 1 / 2 ^ 53"
  by (simp add: RATE_LIMIT_SEC_def)









subsection \<open>The clock after a number of fetches\<close>








subsection \<open>The interval between two requests\<close>





end
